theory Spec2Isabelle
  imports Main "HOL-Library.Char_ord"
begin

section \<open>Go values\<close>

text \<open>
  A Go \<^verbatim>\<open>string\<close> and a Go \<^verbatim>\<open>[]byte\<close> are byte sequences: both are modelled
  as \<^typ>\<open>string\<close>, a list of 8-bit characters. A byte is read as a number with
  \<^const>\<open>of_char\<close> and built from one with \<^const>\<open>char_of\<close>.

  A function that returns \<^verbatim>\<open>(T, error)\<close> is modelled with the sum \<open>error + T\<close>
  (\<open>Inl\<close> the error). A Go run-time panic is not an error value: a function that may
  panic returns an \<open>outcome\<close>.
\<close>

datatype error =
    EscapeError string      \<comment> \<open>\<^verbatim>\<open>url.EscapeError\<close>: the offending escape\<close>
  | ErrSyntax               \<comment> \<open>\<^verbatim>\<open>strconv.ErrSyntax\<close>\<close>
  | CorruptInputError nat   \<comment> \<open>\<^verbatim>\<open>base64.CorruptInputError\<close>: the offset\<close>
  | ErrorString string      \<comment> \<open>the value of \<^verbatim>\<open>errors.New\<close> and \<^verbatim>\<open>fmt.Errorf\<close>\<close>

datatype 'a outcome = Returned 'a | Panicked string


section \<open>The standard library's percent-escaping (package net/url)\<close>

text \<open>
  \<^verbatim>\<open>Escape\<close> and \<^verbatim>\<open>Unescape\<close> of this package are one-line calls of
  \<^verbatim>\<open>url.PathEscape\<close> and \<^verbatim>\<open>url.PathUnescape\<close>. Those are
  \<^verbatim>\<open>escape(s, encodePathSegment)\<close> and \<^verbatim>\<open>unescape(s, encodePathSegment)\<close> of
  Go's net/url; the definitions below follow these two functions at that mode.
\<close>

definition isAlnum :: "char \<Rightarrow> bool" where
  "isAlnum c \<longleftrightarrow>
     (CHR ''a'' \<le> c \<and> c \<le> CHR ''z'') \<or> (CHR ''A'' \<le> c \<and> c \<le> CHR ''Z'') \<or>
     (CHR ''0'' \<le> c \<and> c \<le> CHR ''9'')"

text \<open>
  \<^verbatim>\<open>shouldEscape(c, encodePathSegment)\<close>: letters and digits are never escaped; the
  marks \<^verbatim>\<open>- _ . ~\<close> are not escaped; of the reserved characters
  \<^verbatim>\<open>$ & + , / : ; = ? @\<close> a path segment escapes only \<^verbatim>\<open>/ ; , ?\<close>; everything
  else is escaped.
\<close>

definition shouldEscape :: "char \<Rightarrow> bool" where
  "shouldEscape c \<longleftrightarrow>
     (if isAlnum c then False
      else if c \<in> set ''-_.~'' then False
      else if c \<in> set ''$&+,/:;=?@'' then c \<in> set ''/;,?''
      else True)"

definition upperhex :: string where
  "upperhex = ''0123456789ABCDEF''"

text \<open>The writing loop of \<^verbatim>\<open>escape\<close>: \<^verbatim>\<open>'%', upperhex[c>>4], upperhex[c&15]\<close>.\<close>

fun escape_loop :: "string \<Rightarrow> string" where
  "escape_loop [] = []"
| "escape_loop (c # s) =
     (if shouldEscape c
      then CHR ''%'' # upperhex ! (of_char c div 16) # upperhex ! (of_char c mod 16) # escape_loop s
      else c # escape_loop s)"

text \<open>\<^verbatim>\<open>escape\<close> first counts the bytes to escape and returns its argument when there is none.\<close>

definition escape :: "string \<Rightarrow> string" where
  "escape s = (if length (filter shouldEscape s) = 0 then s else escape_loop s)"

definition ishex :: "char \<Rightarrow> bool" where
  "ishex c \<longleftrightarrow>
     (CHR ''0'' \<le> c \<and> c \<le> CHR ''9'') \<or> (CHR ''a'' \<le> c \<and> c \<le> CHR ''f'') \<or>
     (CHR ''A'' \<le> c \<and> c \<le> CHR ''F'')"

definition unhex :: "char \<Rightarrow> nat" where
  "unhex c =
     (if CHR ''0'' \<le> c \<and> c \<le> CHR ''9'' then of_char c - of_char CHR ''0''
      else if CHR ''a'' \<le> c \<and> c \<le> CHR ''f'' then of_char c - of_char CHR ''a'' + 10
      else if CHR ''A'' \<le> c \<and> c \<le> CHR ''F'' then of_char c - of_char CHR ''A'' + 10
      else 0)"

text \<open>
  The first loop of \<^verbatim>\<open>unescape\<close> checks every \<^verbatim>\<open>%\<close>: at index \<open>i\<close> it fails when
  \<^verbatim>\<open>i+2 >= len(s) || !ishex(s[i+1]) || !ishex(s[i+2])\<close>, with the error
  \<^verbatim>\<open>EscapeError(s[i:])\<close> cut to three bytes; otherwise it goes on at \<open>i+3\<close>. The
  argument is the rest of the string from index \<open>i\<close>. The result is the error, or the
  number of escapes counted.
\<close>

fun unescape_check :: "string \<Rightarrow> error + nat" where
  "unescape_check [] = Inr 0"
| "unescape_check (c # s) =
     (if c = CHR ''%'' then
        (case s of
           h1 # h2 # s' \<Rightarrow>
             if ishex h1 \<and> ishex h2
             then (case unescape_check s' of Inl e \<Rightarrow> Inl e | Inr n \<Rightarrow> Inr (Suc n))
             else Inl (EscapeError (take 3 (c # s)))
         | _ \<Rightarrow> Inl (EscapeError (take 3 (c # s))))
      else unescape_check s)"

text \<open>
  The second loop reads \<^verbatim>\<open>s[i+1]\<close> and \<^verbatim>\<open>s[i+2]\<close> after a \<^verbatim>\<open>%\<close> without a
  check of its own; out of range Go panics, which is \<open>None\<close> here.
\<close>

fun unescape_loop :: "string \<Rightarrow> string option" where
  "unescape_loop [] = Some []"
| "unescape_loop (c # s) =
     (if c = CHR ''%'' then
        (case s of
           h1 # h2 # s' \<Rightarrow> map_option ((#) (char_of (unhex h1 * 16 + unhex h2))) (unescape_loop s')
         | _ \<Rightarrow> None)
      else map_option ((#) c) (unescape_loop s))"

definition unescape :: "string \<Rightarrow> (error + string) outcome" where
  "unescape s =
     (case unescape_check s of
        Inl e \<Rightarrow> Returned (Inl e)
      | Inr n \<Rightarrow>
          if n = 0 then Returned (Inr s)
          else (case unescape_loop s of
                  None \<Rightarrow> Panicked ''index out of range''
                | Some t \<Rightarrow> Returned (Inr t)))"


section \<open>The escaper of the package\<close>

definition Escape :: "string \<Rightarrow> string" where
  "Escape data = escape data"

definition EscapeString :: "string \<Rightarrow> string" where
  "EscapeString s = escape s"

definition Unescape :: "string \<Rightarrow> (error + string) outcome" where
  "Unescape s = unescape s"

definition UnescapeToString :: "string \<Rightarrow> (error + string) outcome" where
  "UnescapeToString s = unescape s"


section \<open>The standard library's string unquoting (packages unicode/utf8 and strconv)\<close>

text \<open>
  The parser unquotes a quoted parameter value with
  \<^verbatim>\<open>strconv.Unquote("\"" + val + "\"")\<close>. The definitions of this section follow Go's
  \<^verbatim>\<open>strconv.Unquote\<close> and \<^verbatim>\<open>strconv.UnquoteChar\<close> on a double-quoted argument, and
  \<^verbatim>\<open>utf8.DecodeRuneInString\<close> and \<^verbatim>\<open>utf8.EncodeRune\<close>, which they call on bytes from
  0x80. A rune is a natural number.
\<close>

definition RuneError :: nat where
  "RuneError = 0xFFFD"

definition RuneSelf :: nat where
  "RuneSelf = 0x80"

text \<open>
  The table \<^verbatim>\<open>first\<close> of unicode/utf8 with its accept ranges: for a leading byte, the
  length of the sequence and the range allowed for the second byte; \<open>None\<close> for a byte
  that starts no sequence (0x80 to 0xC1 and 0xF5 to 0xFF).
\<close>

definition utf8_first :: "nat \<Rightarrow> (nat \<times> nat \<times> nat) option" where
  "utf8_first b =
     (if 0xC2 \<le> b \<and> b \<le> 0xDF then Some (2, 0x80, 0xBF)
      else if b = 0xE0 then Some (3, 0xA0, 0xBF)
      else if 0xE1 \<le> b \<and> b \<le> 0xEC then Some (3, 0x80, 0xBF)
      else if b = 0xED then Some (3, 0x80, 0x9F)
      else if 0xEE \<le> b \<and> b \<le> 0xEF then Some (3, 0x80, 0xBF)
      else if b = 0xF0 then Some (4, 0x90, 0xBF)
      else if 0xF1 \<le> b \<and> b \<le> 0xF3 then Some (4, 0x80, 0xBF)
      else if b = 0xF4 then Some (4, 0x80, 0x8F)
      else None)"

definition cont_byte :: "nat \<Rightarrow> bool" where
  "cont_byte b \<longleftrightarrow> 0x80 \<le> b \<and> b \<le> 0xBF"

text \<open>\<^verbatim>\<open>utf8.DecodeRuneInString\<close>: the rune and the number of bytes it takes.\<close>

definition DecodeRuneInString :: "string \<Rightarrow> nat \<times> nat" where
  "DecodeRuneInString s =
     (case map of_char s of
        [] \<Rightarrow> (RuneError, 0)
      | s0 # r \<Rightarrow>
          if s0 < RuneSelf then (s0, 1)
          else (case utf8_first s0 of
             None \<Rightarrow> (RuneError, 1)
           | Some (sz, lo, hi) \<Rightarrow>
               if length (s0 # r) < sz then (RuneError, 1)
               else let s1 = r ! 0 in
                 if s1 < lo \<or> hi < s1 then (RuneError, 1)
                 else if sz \<le> 2 then (s0 mod 32 * 64 + s1 mod 64, 2)
                 else let s2 = r ! 1 in
                   if \<not> cont_byte s2 then (RuneError, 1)
                   else if sz \<le> 3 then (s0 mod 16 * 4096 + s1 mod 64 * 64 + s2 mod 64, 3)
                   else let s3 = r ! 2 in
                     if \<not> cont_byte s3 then (RuneError, 1)
                     else (s0 mod 8 * 262144 + s1 mod 64 * 4096 + s2 mod 64 * 64 + s3 mod 64, 4)))"

definition ValidRune :: "nat \<Rightarrow> bool" where
  "ValidRune r \<longleftrightarrow> r < 0xD800 \<or> (0xDFFF < r \<and> r \<le> 0x10FFFF)"

text \<open>\<^verbatim>\<open>utf8.EncodeRune\<close>: an invalid rune is written as \<^verbatim>\<open>RuneError\<close>.\<close>

definition EncodeRune :: "nat \<Rightarrow> string" where
  "EncodeRune r =
     (if r \<le> 0x7F then [char_of r]
      else if r \<le> 0x7FF then [char_of (0xC0 + r div 64), char_of (0x80 + r mod 64)]
      else let r' = (if \<not> ValidRune r then RuneError else r) in
        if r' \<le> 0xFFFF
        then [char_of (0xE0 + r' div 4096), char_of (0x80 + r' div 64 mod 64),
              char_of (0x80 + r' mod 64)]
        else [char_of (0xF0 + r' div 262144), char_of (0x80 + r' div 4096 mod 64),
              char_of (0x80 + r' div 64 mod 64), char_of (0x80 + r' mod 64)])"

text \<open>
  The digits of a \<^verbatim>\<open>\x\<close>, \<^verbatim>\<open>\u\<close> or \<^verbatim>\<open>\U\<close> escape, \<^verbatim>\<open>v = v<<4 | x\<close>;
  \<open>None\<close> at a byte that is no hexadecimal digit.
\<close>

fun hex_value :: "nat \<Rightarrow> string \<Rightarrow> nat option" where
  "hex_value v [] = Some v"
| "hex_value v (c # s) = (if ishex c then hex_value (v * 16 + unhex c) s else None)"

definition isOctal :: "char \<Rightarrow> bool" where
  "isOctal c \<longleftrightarrow> CHR ''0'' \<le> c \<and> c \<le> CHR ''7''"

definition octal :: "char \<Rightarrow> nat" where
  "octal c = of_char c - of_char CHR ''0''"

text \<open>
  \<^verbatim>\<open>strconv.UnquoteChar(s, quote)\<close>: the first character or escape of \<open>s\<close> as
  \<open>(value, multibyte, tail)\<close>.
\<close>

definition UnquoteChar :: "string \<Rightarrow> char \<Rightarrow> error + (nat \<times> bool \<times> string)" where
  "UnquoteChar s quote =
     (case s of
        [] \<Rightarrow> Inl ErrSyntax
      | c # s1 \<Rightarrow>
          if c = quote \<and> (quote = CHR 0x27 \<or> quote = CHR 0x22) then Inl ErrSyntax
          else if RuneSelf \<le> of_char c then
            (case DecodeRuneInString s of (r, sz) \<Rightarrow> Inr (r, True, drop sz s))
          else if c \<noteq> CHR 0x5C then Inr (of_char c, False, s1)
          else (case s1 of
             [] \<Rightarrow> Inl ErrSyntax
           | e # s2 \<Rightarrow>
               if e = CHR ''a'' then Inr (7, False, s2)
               else if e = CHR ''b'' then Inr (8, False, s2)
               else if e = CHR ''f'' then Inr (12, False, s2)
               else if e = CHR ''n'' then Inr (10, False, s2)
               else if e = CHR ''r'' then Inr (13, False, s2)
               else if e = CHR ''t'' then Inr (9, False, s2)
               else if e = CHR ''v'' then Inr (11, False, s2)
               else if e = CHR ''x'' \<or> e = CHR ''u'' \<or> e = CHR ''U'' then
                 (let n = (if e = CHR ''x'' then 2 else if e = CHR ''u'' then 4 else 8) in
                  if length s2 < n then Inl ErrSyntax
                  else (case hex_value 0 (take n s2) of
                     None \<Rightarrow> Inl ErrSyntax
                   | Some v \<Rightarrow>
                       if e = CHR ''x'' then Inr (v, False, drop n s2)
                       else if \<not> ValidRune v then Inl ErrSyntax
                       else Inr (v, True, drop n s2)))
               else if isOctal e then
                 (if length s2 < 2 then Inl ErrSyntax
                  else if \<not> isOctal (s2 ! 0) \<or> \<not> isOctal (s2 ! 1) then Inl ErrSyntax
                  else let v = (octal e * 8 + octal (s2 ! 0)) * 8 + octal (s2 ! 1) in
                    if 255 < v then Inl ErrSyntax else Inr (v, False, drop 2 s2))
               else if e = CHR 0x5C then Inr (0x5C, False, s2)
               else if e = CHR 0x27 \<or> e = CHR 0x22 then
                 (if e \<noteq> quote then Inl ErrSyntax else Inr (of_char e, False, s2))
               else Inl ErrSyntax))"


text \<open>
  The loop of \<^verbatim>\<open>strconv.Unquote\<close> for the quote \<^verbatim>\<open>"\<close>: it takes one character or
  escape at a time with \<^verbatim>\<open>UnquoteChar\<close> and appends it, as one byte when
  \<^verbatim>\<open>c < utf8.RuneSelf || !multibyte\<close>, as its UTF-8 encoding otherwise.
\<close>

function Unquote_loop :: "string \<Rightarrow> error + string" where
  "Unquote_loop s =
     (if s = [] then Inr []
      else (case UnquoteChar s (CHR 0x22) of
         Inl e \<Rightarrow> Inl e
       | Inr (c, multibyte, ss) \<Rightarrow>
           (case Unquote_loop ss of
              Inl e \<Rightarrow> Inl e
            | Inr buf \<Rightarrow>
                Inr ((if c < RuneSelf \<or> \<not> multibyte then [char_of c] else EncodeRune c) @ buf))))"
  by pat_completeness auto
termination
  by (relation "measure length")
     (auto simp: UnquoteChar_def DecodeRuneInString_def Let_def
           split: list.splits if_splits option.splits prod.splits)

text \<open>
  \<^verbatim>\<open>strconv.Unquote("\"" + val + "\"")\<close> as a function of \<open>val\<close>. The argument of
  \<^verbatim>\<open>Unquote\<close> has length 2 at least and the quote \<^verbatim>\<open>"\<close> at both ends, so its checks
  of the length and of the two quotes pass and its body works on \<open>val\<close>: a line feed
  in it is a syntax error, and the loop does the rest. (\<^verbatim>\<open>Unquote\<close> returns a value
  with no backslash and no quote that is valid UTF-8 as it is, without the loop.)
\<close>

definition Unquote_quoted :: "string \<Rightarrow> error + string" where
  "Unquote_quoted val = (if CHR 0x0A \<in> set val then Inl ErrSyntax else Unquote_loop val)"


section \<open>The standard library's base64 (package encoding/base64)\<close>

text \<open>
  \<^verbatim>\<open>base64.StdEncoding\<close>: the alphabet of RFC 4648 with the padding \<^verbatim>\<open>=\<close>, decoding
  not strict.
\<close>

definition encodeStd :: string where
  "encodeStd = ''ABCDEFGHIJKLMNOPQRSTUVWXYZabcdefghijklmnopqrstuvwxyz0123456789+/''"

definition enc64 :: "nat \<Rightarrow> char" where
  "enc64 v = encodeStd ! (v mod 64)"

text \<open>\<^verbatim>\<open>Encoding.Encode\<close>: three bytes give four characters; the last group is padded.\<close>

fun Encode :: "string \<Rightarrow> string" where
  "Encode [] = []"
| "Encode [a] =
     (let v = of_char a * 65536
      in [enc64 (v div 262144), enc64 (v div 4096), CHR ''='', CHR ''=''])"
| "Encode [a, b] =
     (let v = of_char a * 65536 + of_char b * 256
      in [enc64 (v div 262144), enc64 (v div 4096), enc64 (v div 64), CHR ''=''])"
| "Encode (a # b # c # src) =
     (let v = of_char a * 65536 + of_char b * 256 + of_char c
      in enc64 (v div 262144) # enc64 (v div 4096) # enc64 (v div 64) # enc64 v # Encode src)"

text \<open>\<^verbatim>\<open>decodeMap\<close>: the value of a character of the alphabet; \<open>None\<close> stands for 0xff.\<close>

definition decodeMap :: "char \<Rightarrow> nat option" where
  "decodeMap c =
     (if c \<in> set encodeStd then Some (length (takeWhile (\<lambda>x. x \<noteq> c) encodeStd)) else None)"

definition isNewline :: "char \<Rightarrow> bool" where
  "isNewline c \<longleftrightarrow> c = CHR 0x0A \<or> c = CHR 0x0D"

text \<open>
  The end of \<^verbatim>\<open>decodeQuantum\<close>: the values read, four of six bits each (missing ones
  are 0), make three bytes, of which \<open>dlen - 1\<close> are written.
\<close>

definition quantum_bytes :: "nat \<Rightarrow> nat list \<Rightarrow> string" where
  "quantum_bytes dlen dbuf =
     (let d = dbuf @ replicate (4 - length dbuf) 0;
          v = d ! 0 * 262144 + d ! 1 * 4096 + d ! 2 * 64 + d ! 3
      in take (dlen - 1) [char_of (v div 65536), char_of (v div 256), char_of v])"

text \<open>
  \<^verbatim>\<open>Encoding.Decode\<close> with its \<^verbatim>\<open>decodeQuantum\<close>: \<open>dbuf\<close> holds the values read in
  the current quantum (\<open>j\<close> is its length), the string is the input from index \<open>si\<close>
  on. The result is the bytes decoded and the error; with an error Go returns the bytes
  decoded before it too. A full quantum starts the next one; padding ends the input, and
  anything but line ends after it is an error at its offset.
\<close>

fun Decode :: "nat list \<Rightarrow> string \<Rightarrow> nat \<Rightarrow> string \<times> error option" where
  "Decode dbuf [] si =
     (if length dbuf = 0 then ([], None)
      else ([], Some (CorruptInputError (si - length dbuf))))"
| "Decode dbuf (c # src) si =
     (case decodeMap c of
        Some out \<Rightarrow>
          if length dbuf = 3
          then (case Decode [] src (si + 1) of
                  (dst, err) \<Rightarrow> (quantum_bytes 4 (dbuf @ [out]) @ dst, err))
          else Decode (dbuf @ [out]) src (si + 1)
      | None \<Rightarrow>
          if isNewline c then Decode dbuf src (si + 1)
          else if c \<noteq> CHR ''='' then ([], Some (CorruptInputError si))
          else if length dbuf < 2 then ([], Some (CorruptInputError si))
          else if length dbuf = 2 then
            (let src1 = dropWhile isNewline src;
                 si1 = si + 1 + length (takeWhile isNewline src)
             in case src1 of
                  [] \<Rightarrow> ([], Some (CorruptInputError si1))
                | c1 # src2 \<Rightarrow>
                    if c1 \<noteq> CHR ''='' then ([], Some (CorruptInputError (si1 - 1)))
                    else
                      (let src3 = dropWhile isNewline src2;
                           si3 = si1 + 1 + length (takeWhile isNewline src2)
                       in (quantum_bytes 2 dbuf,
                           if src3 \<noteq> [] then Some (CorruptInputError si3) else None)))
          else
            (let src3 = dropWhile isNewline src;
                 si3 = si + 1 + length (takeWhile isNewline src)
             in (quantum_bytes 3 dbuf,
                 if src3 \<noteq> [] then Some (CorruptInputError si3) else None)))"

text \<open>\<^verbatim>\<open>base64.StdEncoding.DecodeString\<close>, as \<open>(bytes, error)\<close>.\<close>

definition base64_DecodeString :: "string \<Rightarrow> string \<times> error option" where
  "base64_DecodeString s = Decode [] s 0"



section \<open>Media types and data URLs\<close>

definition EncodingBase64 :: string where
  "EncodingBase64 = ''base64''"

definition EncodingASCII :: string where
  "EncodingASCII = ''ascii''"

text \<open>
  \<^verbatim>\<open>Params\<close> is a Go map, always allocated in this package. \<^verbatim>\<open>DataURL\<close> embeds
  \<^verbatim>\<open>MediaType\<close>: it is the record extended. \<^verbatim>\<open>Data\<close> is a byte slice that may be
  \<^verbatim>\<open>nil\<close>, which is \<open>None\<close>.
\<close>

record MediaType =
  Type :: string
  Subtype :: string
  Params :: "string \<rightharpoonup> string"

record DataURL = MediaType +
  Encoding :: string
  Data :: "string option"

definition defaultMediaType :: MediaType where
  "defaultMediaType =
     \<lparr>Type = ''text'', Subtype = ''plain'', Params = [''charset'' \<mapsto> ''US-ASCII'']\<rparr>"

definition ContentType :: "'a MediaType_scheme \<Rightarrow> string" where
  "ContentType mt = Type mt @ ''/'' @ Subtype mt"

text \<open>
  \<^verbatim>\<open>MediaType.String\<close> ranges over the map, in an order that Go does not fix: \<open>order\<close>
  is the list of the keys as this run of the loop yields them (each key of the map
  once). Every entry is written as \<^verbatim>\<open>;key=\<close> and the escaped value.
\<close>

definition MediaType_String :: "string list \<Rightarrow> 'a MediaType_scheme \<Rightarrow> string" where
  "MediaType_String order mt =
     ContentType mt @
     concat (map (\<lambda>k. case Params mt k of
                         Some v \<Rightarrow> '';'' @ k @ ''='' @ EscapeString v
                       | None \<Rightarrow> []) order)"


section \<open>Writing a data URL\<close>

text \<open>
  An \<^verbatim>\<open>io.Writer\<close> is its \<^verbatim>\<open>Write\<close> method on a state \<open>'w\<close> of the sink:
  \<open>Write w p\<close> is the new state with the \<^verbatim>\<open>(n, err)\<close> it returns.
  \<^verbatim>\<open>fmt.Fprint(w, s)\<close> with a string formats it as it is and returns what the one
  \<^verbatim>\<open>w.Write\<close> it makes returns.
\<close>

type_synonym 'w Writer = "'w \<Rightarrow> string \<Rightarrow> 'w \<times> int \<times> error option"

definition Fprint :: "'w Writer \<Rightarrow> 'w \<Rightarrow> string \<Rightarrow> 'w \<times> int \<times> error option" where
  "Fprint Write w s = Write w s"

text \<open>\<^verbatim>\<open>bytes.Buffer\<close>: \<^verbatim>\<open>Write\<close> appends and never fails.\<close>

definition Buffer_Write :: "string Writer" where
  "Buffer_Write buf p = (buf @ p, int (length p), None)"

text \<open>
  The \<^verbatim>\<open>Write\<close> of the encoder that \<^verbatim>\<open>base64.NewEncoder\<close> makes, called once on a new
  encoder: while three bytes or more are left it encodes up to 768 of them (a multiple
  of three) and writes the 1024 characters or fewer to the sink, stopping at a failed
  write; the one or two bytes left over are kept in the encoder. The result is the
  sink, \<^verbatim>\<open>(n, err)\<close> and the bytes kept.
\<close>

function encoder_Write ::
  "'w Writer \<Rightarrow> 'w \<Rightarrow> string \<Rightarrow> int \<Rightarrow> 'w \<times> int \<times> error option \<times> string" where
  "encoder_Write Write w p n =
     (if 3 \<le> length p then
        (let nn = (if 768 > length p then length p - length p mod 3 else 768)
         in case Write w (Encode (take nn p)) of
              (w', _, Some e) \<Rightarrow> (w', n, Some e, [])
            | (w', _, None) \<Rightarrow> encoder_Write Write w' (drop nn p) (n + int nn))
      else (w, n + int (length p), None, p))"
  by pat_completeness auto
termination
  by (relation "measure (\<lambda>(Write, w, p, n). length p)") (auto split: if_splits)

text \<open>
  \<^verbatim>\<open>Close\<close> writes the bytes kept, padded, unless a write failed before; it returns the
  sink and the error.
\<close>

definition encoder_Close :: "'w Writer \<Rightarrow> 'w \<Rightarrow> error option \<Rightarrow> string \<Rightarrow> 'w \<times> error option" where
  "encoder_Close Write w err buf =
     (if err = None \<and> 0 < length buf
      then (case Write w (Encode buf) of (w', _, err') \<Rightarrow> (w', err'))
      else (w, err))"

text \<open>
  \<^verbatim>\<open>DataURL.WriteTo\<close>. The result is the sink with the \<^verbatim>\<open>(n, err)\<close> returned. The
  errors of \<^verbatim>\<open>Fprint\<close> are dropped (\<^verbatim>\<open>ni, _ =\<close>); in the base64 branch the count of
  \<^verbatim>\<open>encoder.Write\<close> is assigned to \<^verbatim>\<open>ni\<close> and not added to \<^verbatim>\<open>n\<close>, and what
  \<^verbatim>\<open>encoder.Close\<close> returns is dropped. A \<^verbatim>\<open>nil\<close> \<^verbatim>\<open>Data\<close> is written as no bytes.
\<close>

definition WriteTo ::
  "'w Writer \<Rightarrow> string list \<Rightarrow> DataURL \<Rightarrow> 'w \<Rightarrow> 'w \<times> int \<times> error option" where
  "WriteTo Write order du w =
     (case Fprint Write w ''data:'' of (w1, ni1, _) \<Rightarrow>
      case Fprint Write w1 (MediaType_String order du) of (w2, ni2, _) \<Rightarrow>
      case (if Encoding du = EncodingBase64
            then (case Fprint Write w2 '';base64'' of (w', ni, _) \<Rightarrow> (w', ni1 + ni2 + ni))
            else (w2, ni1 + ni2)) of (w3, n3) \<Rightarrow>
      case Fprint Write w3 '','' of (w4, ni4, _) \<Rightarrow>
      let n4 = n3 + ni4; data = (case Data du of None \<Rightarrow> [] | Some d \<Rightarrow> d) in
      if Encoding du = EncodingBase64 then
        (case encoder_Write Write w4 data 0 of
           (w5, ni, Some e, buf) \<Rightarrow> (w5, n4, Some e)
         | (w5, ni, None, buf) \<Rightarrow> (fst (encoder_Close Write w5 None buf), n4, None))
      else if Encoding du = EncodingASCII then
        (case Fprint Write w4 (Escape data) of (w5, ni, _) \<Rightarrow> (w5, n4 + ni, None))
      else (w4, n4, Some (ErrorString (''dataurl: invalid encoding '' @ Encoding du))))"




section \<open>Tokens\<close>

text \<open>
  Modelled from the spec: the declaration of the token kinds is with the lexer, which is
  not among the sources. The kinds are the fifteen of the spec's data model, under the
  names the parser and the tests use for them.
\<close>

datatype itemType =
    itemError | itemEOF | itemDataPrefix | itemMediaType | itemMediaSep | itemMediaSubType
  | itemParamSemicolon | itemParamAttr | itemParamEqual | itemLeftStringQuote | itemParamVal
  | itemRightStringQuote | itemBase64Enc | itemDataComma | itemData

record item =
  t :: itemType
  val :: string

text \<open>
  Modelled from the spec: the method \<^verbatim>\<open>item.String\<close> is declared with the lexer, which
  is not among the sources. The parser calls it on an Error token only, and the spec has
  the message of that token returned as the parse failure: on an Error token it is the
  token's value.
\<close>

definition item_String :: "item \<Rightarrow> string" where
  "item_String i = val i"


section \<open>The parser\<close>

datatype encodedDataReader = asciiDataReader | base64DataReader

text \<open>The two readers of the package; a failed reader returns \<^verbatim>\<open>nil\<close> with the error.\<close>

fun read_data :: "encodedDataReader \<Rightarrow> string \<Rightarrow> (error + string) outcome" where
  "read_data asciiDataReader s =
     (case Unescape s of
        Panicked m \<Rightarrow> Panicked m
      | Returned (Inl err) \<Rightarrow> Returned (Inl err)
      | Returned (Inr us) \<Rightarrow> Returned (Inr us))"
| "read_data base64DataReader s =
     (case base64_DecodeString s of
        (data, Some err) \<Rightarrow> Returned (Inl err)
      | (data, None) \<Rightarrow> Returned (Inr data))"

text \<open>
  The parser's state. Its lexer \<^verbatim>\<open>l\<close> is not a field here: the tokens that the channel
  \<^verbatim>\<open>l.items\<close> delivers until it is closed are the list that \<open>parse\<close> takes.
  \<^verbatim>\<open>encodedDataReaderFn\<close> is \<^verbatim>\<open>nil\<close> until a token sets it.
\<close>

record parser =
  du :: DataURL
  currentAttr :: string
  unquoteParamVal :: bool
  encodedDataReaderFn :: "encodedDataReader option"

text \<open>
  \<^verbatim>\<open>parser.parse\<close>: the loop over the tokens, one case of the switch per token; a kind
  with no case is skipped. The result is the parser as the loop leaves it, with the
  error returned (\<open>None\<close> for \<^verbatim>\<open>nil\<close>). The channel closed before an EOF or Error
  token is the panic after the loop; calling the reader while it is \<^verbatim>\<open>nil\<close> is a
  run-time panic.
\<close>

fun parse :: "parser \<Rightarrow> item list \<Rightarrow> (parser \<times> error option) outcome" where
  "parse p [] = Panicked ''EOF not found''"
| "parse p (i # items) =
     (case t i of
        itemError \<Rightarrow> Returned (p, Some (ErrorString (item_String i)))
      | itemMediaType \<Rightarrow>
          parse (p\<lparr>du := (du p)\<lparr>Type := val i, Params := (Params (du p))(''charset'' := None)\<rparr>\<rparr>)
            items
      | itemMediaSubType \<Rightarrow> parse (p\<lparr>du := (du p)\<lparr>Subtype := val i\<rparr>\<rparr>) items
      | itemParamAttr \<Rightarrow> parse (p\<lparr>currentAttr := val i\<rparr>) items
      | itemLeftStringQuote \<Rightarrow> parse (p\<lparr>unquoteParamVal := True\<rparr>) items
      | itemParamVal \<Rightarrow>
          if unquoteParamVal p then
            (case Unquote_quoted (val i) of
               Inl err \<Rightarrow> Returned (p\<lparr>unquoteParamVal := False\<rparr>, Some err)
             | Inr us \<Rightarrow>
                 parse (p\<lparr>unquoteParamVal := False,
                          du := (du p)\<lparr>Params := (Params (du p))(currentAttr p \<mapsto> us)\<rparr>\<rparr>) items)
          else
            (case UnescapeToString (val i) of
               Panicked m \<Rightarrow> Panicked m
             | Returned (Inl err) \<Rightarrow> Returned (p, Some err)
             | Returned (Inr us) \<Rightarrow>
                 parse (p\<lparr>du := (du p)\<lparr>Params := (Params (du p))(currentAttr p \<mapsto> us)\<rparr>\<rparr>) items)
      | itemBase64Enc \<Rightarrow>
          parse (p\<lparr>du := (du p)\<lparr>Encoding := EncodingBase64\<rparr>,
                   encodedDataReaderFn := Some base64DataReader\<rparr>) items
      | itemDataComma \<Rightarrow>
          parse (if encodedDataReaderFn p = None
                 then p\<lparr>encodedDataReaderFn := Some asciiDataReader\<rparr> else p) items
      | itemData \<Rightarrow>
          (case encodedDataReaderFn p of
             None \<Rightarrow> Panicked ''invalid memory address or nil pointer dereference''
           | Some fn \<Rightarrow>
               (case read_data fn (val i) of
                  Panicked m \<Rightarrow> Panicked m
                | Returned (Inl err) \<Rightarrow> Returned (p, Some err)
                | Returned (Inr reader) \<Rightarrow> parse (p\<lparr>du := (du p)\<lparr>Data := Some reader\<rparr>\<rparr>) items))
      | itemEOF \<Rightarrow>
          Returned (if Data (du p) = None then p\<lparr>du := (du p)\<lparr>Data := Some []\<rparr>\<rparr> else p, None)
      | _ \<Rightarrow> parse p items)"

text \<open>
  \<^verbatim>\<open>DecodeString\<close>. The function \<^verbatim>\<open>lex\<close> is not among the sources: \<open>lexer\<close>
  stands for it, as the function from the input to the tokens its channel delivers. The result
  is the pair \<^verbatim>\<open>(*DataURL, error)\<close> returned, \<open>None\<close> for \<^verbatim>\<open>nil\<close>.
\<close>

definition DecodeString ::
  "(string \<Rightarrow> item list) \<Rightarrow> string \<Rightarrow> (DataURL option \<times> error option) outcome" where
  "DecodeString lexer s =
     (let du0 = MediaType.extend defaultMediaType \<lparr>Encoding = EncodingASCII, Data = None\<rparr>;
          parser0 = \<lparr>du = du0, currentAttr = [], unquoteParamVal = False,
                     encodedDataReaderFn = None\<rparr>
      in case parse parser0 (lexer s) of
           Panicked m \<Rightarrow> Panicked m
         | Returned (p, Some err) \<Rightarrow> Returned (None, Some err)
         | Returned (p, None) \<Rightarrow> Returned (Some (du p), None))"



text \<open>
  One pass of the loop of \<^verbatim>\<open>parser.parse\<close>, the case of the switch that a token
  takes: \<open>Next\<close> holds the parser with which the loop goes on to the next token,
  \<open>Done\<close> what \<^verbatim>\<open>parse\<close> returns (or its panic) at this token.
\<close>

datatype pass = Next parser | Done "(parser \<times> error option) outcome"

definition parse_item :: "parser \<Rightarrow> item \<Rightarrow> pass" where
  "parse_item p i =
     (case t i of
        itemError \<Rightarrow> Done (Returned (p, Some (ErrorString (item_String i))))
      | itemMediaType \<Rightarrow>
          Next (p\<lparr>du := (du p)\<lparr>Type := val i, Params := (Params (du p))(''charset'' := None)\<rparr>\<rparr>)
      | itemMediaSubType \<Rightarrow> Next (p\<lparr>du := (du p)\<lparr>Subtype := val i\<rparr>\<rparr>)
      | itemParamAttr \<Rightarrow> Next (p\<lparr>currentAttr := val i\<rparr>)
      | itemLeftStringQuote \<Rightarrow> Next (p\<lparr>unquoteParamVal := True\<rparr>)
      | itemParamVal \<Rightarrow>
          if unquoteParamVal p then
            (case Unquote_quoted (val i) of
               Inl err \<Rightarrow> Done (Returned (p\<lparr>unquoteParamVal := False\<rparr>, Some err))
             | Inr us \<Rightarrow>
                 Next (p\<lparr>unquoteParamVal := False,
                         du := (du p)\<lparr>Params := (Params (du p))(currentAttr p \<mapsto> us)\<rparr>\<rparr>))
          else
            (case UnescapeToString (val i) of
               Panicked m \<Rightarrow> Done (Panicked m)
             | Returned (Inl err) \<Rightarrow> Done (Returned (p, Some err))
             | Returned (Inr us) \<Rightarrow>
                 Next (p\<lparr>du := (du p)\<lparr>Params := (Params (du p))(currentAttr p \<mapsto> us)\<rparr>\<rparr>))
      | itemBase64Enc \<Rightarrow>
          Next (p\<lparr>du := (du p)\<lparr>Encoding := EncodingBase64\<rparr>,
                  encodedDataReaderFn := Some base64DataReader\<rparr>)
      | itemDataComma \<Rightarrow>
          Next (if encodedDataReaderFn p = None
                then p\<lparr>encodedDataReaderFn := Some asciiDataReader\<rparr> else p)
      | itemData \<Rightarrow>
          (case encodedDataReaderFn p of
             None \<Rightarrow> Done (Panicked ''invalid memory address or nil pointer dereference'')
           | Some fn \<Rightarrow>
               (case read_data fn (val i) of
                  Panicked m \<Rightarrow> Done (Panicked m)
                | Returned (Inl err) \<Rightarrow> Done (Returned (p, Some err))
                | Returned (Inr reader) \<Rightarrow> Next (p\<lparr>du := (du p)\<lparr>Data := Some reader\<rparr>\<rparr>)))
      | itemEOF \<Rightarrow>
          Done (Returned (if Data (du p) = None then p\<lparr>du := (du p)\<lparr>Data := Some []\<rparr>\<rparr> else p,
                          None))
      | _ \<Rightarrow> Next p)"

text \<open>
  The loop on tokens that do not end it: the parser as the loop holds it after the last
  of them, the accumulated state; \<open>None\<close> when \<^verbatim>\<open>parse\<close> returns or panics at one of
  them.
\<close>

fun consume :: "parser \<Rightarrow> item list \<Rightarrow> parser option" where
  "consume p [] = Some p"
| "consume p (i # items) =
     (case parse_item p i of Next p' \<Rightarrow> consume p' items | Done r \<Rightarrow> None)"


section \<open>The specification's reading of the escaper\<close>

text \<open>
  The specification says that unescaping decodes every \<^verbatim>\<open>%XX\<close> to the byte it
  names and passes every other character through unchanged: \<open>percent_decode\<close> follows
  these words, on any string.
\<close>

fun percent_decode :: "string \<Rightarrow> string" where
  "percent_decode (c # h1 # h2 # s) =
     (if c = CHR ''%'' \<and> ishex h1 \<and> ishex h2
      then char_of (unhex h1 * 16 + unhex h2) # percent_decode s
      else c # percent_decode (h1 # h2 # s))"
| "percent_decode s = s"

text \<open>
  The specification's failure: some \<^verbatim>\<open>%\<close> of the string is not followed by two
  hexadecimal digits. \<open>bad_percent\<close> looks at every position of the string.
\<close>

definition two_hex :: "string \<Rightarrow> bool" where
  "two_hex s = (case s of h1 # h2 # _ \<Rightarrow> ishex h1 \<and> ishex h2 | _ \<Rightarrow> False)"

fun bad_percent :: "string \<Rightarrow> bool" where
  "bad_percent [] = False"
| "bad_percent (c # s) = ((c = CHR ''%'' \<and> \<not> two_hex s) \<or> bad_percent s)"


section \<open>The specification's reading of a quoted value\<close>

text \<open>
  The specification says that in a quoted value a backslash removes the escaping of the
  character that follows it: \<open>quoted_pair_unescape\<close> follows these words, dropping the
  backslash and keeping the character after it.
\<close>

fun quoted_pair_unescape :: "string \<Rightarrow> string" where
  "quoted_pair_unescape (c # d # s) =
     (if c = CHR 0x5C then d # quoted_pair_unescape s else c # quoted_pair_unescape (d # s))"
| "quoted_pair_unescape s = s"


section \<open>The specification's grammar of an unquoted value\<close>



section \<open>Token sequences of the test table\<close>

text \<open>
  The tests give, for an input, the tokens expected of the lexer. Five of these
  sequences, for the inputs \<^verbatim>\<open>data:,\<close>,
  \<^verbatim>\<open>data:text/plain;charset=utf-8;base64,aGV5YQ==\<close>,
  \<^verbatim>\<open>data:xxx;base64,aGV5YQ==\<close>, the input with a quoted parameter
  \<^verbatim>\<open>data:application/json;charset=utf-8;foo="b\"<@>\"r";style=unformatted%20json;base64,eyJtc2ciOiAiaGV5YSJ9\<close>
  and \<^verbatim>\<open>data:;base64,aGV5YQ==\<close>.
\<close>

definition items_comma :: "item list" where
  "items_comma =
     [\<lparr>t = itemDataPrefix, val = ''data:''\<rparr>, \<lparr>t = itemDataComma, val = '',''\<rparr>,
      \<lparr>t = itemEOF, val = []\<rparr>]"

definition items_charset :: "item list" where
  "items_charset =
     [\<lparr>t = itemDataPrefix, val = ''data:''\<rparr>, \<lparr>t = itemMediaType, val = ''text''\<rparr>,
      \<lparr>t = itemMediaSep, val = ''/''\<rparr>, \<lparr>t = itemMediaSubType, val = ''plain''\<rparr>,
      \<lparr>t = itemParamSemicolon, val = '';''\<rparr>, \<lparr>t = itemParamAttr, val = ''charset''\<rparr>,
      \<lparr>t = itemParamEqual, val = ''=''\<rparr>, \<lparr>t = itemParamVal, val = ''utf-8''\<rparr>,
      \<lparr>t = itemParamSemicolon, val = '';''\<rparr>, \<lparr>t = itemBase64Enc, val = ''base64''\<rparr>,
      \<lparr>t = itemDataComma, val = '',''\<rparr>, \<lparr>t = itemData, val = ''aGV5YQ==''\<rparr>,
      \<lparr>t = itemEOF, val = []\<rparr>]"


definition items_json :: "item list" where
  "items_json =
     [\<lparr>t = itemDataPrefix, val = ''data:''\<rparr>, \<lparr>t = itemMediaType, val = ''application''\<rparr>,
      \<lparr>t = itemMediaSep, val = ''/''\<rparr>, \<lparr>t = itemMediaSubType, val = ''json''\<rparr>,
      \<lparr>t = itemParamSemicolon, val = '';''\<rparr>, \<lparr>t = itemParamAttr, val = ''charset''\<rparr>,
      \<lparr>t = itemParamEqual, val = ''=''\<rparr>, \<lparr>t = itemParamVal, val = ''utf-8''\<rparr>,
      \<lparr>t = itemParamSemicolon, val = '';''\<rparr>, \<lparr>t = itemParamAttr, val = ''foo''\<rparr>,
      \<lparr>t = itemParamEqual, val = ''=''\<rparr>, \<lparr>t = itemLeftStringQuote, val = [CHR 0x22]\<rparr>,
      \<lparr>t = itemParamVal, val = ''b'' @ [CHR 0x5C, CHR 0x22] @ ''<@>'' @ [CHR 0x5C, CHR 0x22] @ ''r''\<rparr>,
      \<lparr>t = itemRightStringQuote, val = [CHR 0x22]\<rparr>,
      \<lparr>t = itemParamSemicolon, val = '';''\<rparr>, \<lparr>t = itemParamAttr, val = ''style''\<rparr>,
      \<lparr>t = itemParamEqual, val = ''=''\<rparr>, \<lparr>t = itemParamVal, val = ''unformatted%20json''\<rparr>,
      \<lparr>t = itemParamSemicolon, val = '';''\<rparr>, \<lparr>t = itemBase64Enc, val = ''base64''\<rparr>,
      \<lparr>t = itemDataComma, val = '',''\<rparr>, \<lparr>t = itemData, val = ''eyJtc2ciOiAiaGV5YSJ9''\<rparr>,
      \<lparr>t = itemEOF, val = []\<rparr>]"



section \<open>The tokens of a serialization\<close>








section \<open>Properties of the escaper\<close>

lemma upperhex_nth:
  assumes "d < 16"
  shows "ishex (upperhex ! d) \<and> unhex (upperhex ! d) = d"
proof -
  from assms have "d = 0 \<or> d = 1 \<or> d = 2 \<or> d = 3 \<or> d = 4 \<or> d = 5 \<or> d = 6 \<or> d = 7 \<or>
      d = 8 \<or> d = 9 \<or> d = 10 \<or> d = 11 \<or> d = 12 \<or> d = 13 \<or> d = 14 \<or> d = 15"
    by arith
  then show ?thesis
    by (elim disjE) (simp_all add: upperhex_def ishex_def unhex_def)
qed

lemma percent_shouldEscape: "shouldEscape CHR ''%''"
  by (simp add: shouldEscape_def isAlnum_def)

lemma of_char_lt_256: "(of_char c :: nat) < 256"
  by (metis of_char_mod_256 mod_less_divisor zero_less_numeral)

lemma hex_pair:
  "char_of (unhex (upperhex ! (of_char c div 16)) * 16 + unhex (upperhex ! (of_char c mod 16))) = c"
proof -
  have hi: "(of_char c :: nat) div 16 < 16"
    using of_char_lt_256 [of c] by arith
  have lo: "(of_char c :: nat) mod 16 < 16"
    by simp
  show ?thesis
    using upperhex_nth [OF hi] upperhex_nth [OF lo] by (simp add: mult.commute)
qed

lemma unescape_check_escape_loop:
  "unescape_check (escape_loop s) = Inr (length (filter shouldEscape s))"
proof (induction s)
  case Nil
  show ?case by simp
next
  case (Cons c s)
  have hi: "(of_char c :: nat) div 16 < 16"
    using of_char_lt_256 [of c] by arith
  have lo: "(of_char c :: nat) mod 16 < 16"
    by simp
  show ?case
  proof (cases "shouldEscape c")
    case True
    then show ?thesis
      using Cons upperhex_nth [OF hi] upperhex_nth [OF lo] by simp
  next
    case False
    then have "c \<noteq> CHR ''%''"
      using percent_shouldEscape by auto
    with False Cons show ?thesis by simp
  qed
qed

lemma unescape_loop_escape_loop: "unescape_loop (escape_loop s) = Some s"
proof (induction s)
  case Nil
  show ?case by simp
next
  case (Cons c s)
  show ?case
  proof (cases "shouldEscape c")
    case True
    then show ?thesis
      using Cons hex_pair [of c] by simp
  next
    case False
    then have "c \<noteq> CHR ''%''"
      using percent_shouldEscape by auto
    with False Cons show ?thesis by simp
  qed
qed

lemma escape_loop_id: "filter shouldEscape s = [] \<Longrightarrow> escape_loop s = s"
  by (induction s) (auto split: if_splits)

lemma unescape_escape: "unescape (escape s) = Returned (Inr s)"
proof (cases "length (filter shouldEscape s) = 0")
  case True
  then have "escape_loop s = s"
    by (simp add: escape_loop_id)
  with True unescape_check_escape_loop [of s] show ?thesis
    by (simp add: unescape_def escape_def)
next
  case False
  then show ?thesis
    by (simp add: unescape_def escape_def unescape_check_escape_loop unescape_loop_escape_loop)
qed

text \<open>
  C2. The claim: \<^verbatim>\<open>Escape\<close> leaves exactly the letters, the digits and
  \<^verbatim>\<open>-_.!~*'()\<close> unchanged and writes every other byte as \<^verbatim>\<open>%XX\<close>. The comment of
  \<^verbatim>\<open>Escape\<close> names the same set. The code calls \<^verbatim>\<open>url.PathEscape\<close>, which escapes
  \<^verbatim>\<open>!\<close>, \<^verbatim>\<open>*\<close>, \<^verbatim>\<open>(\<close> and \<^verbatim>\<open>)\<close>: on the marks \<^verbatim>\<open>-_.!~*()\<close> its result is
  not the input.
\<close>

theorem Escape_escapes_documented_marks:
  "Escape ''-_.!~*()'' = ''-_.%21~%2A%28%29''"
  by (simp add: Escape_def escape_def shouldEscape_def isAlnum_def upperhex_def)

text \<open>
  C6. Unescaping what \<^verbatim>\<open>Escape\<close> wrote gives the bytes back, without an error and
  without a panic. This holds for every byte sequence, so for the ones the claim names.
\<close>

theorem Unescape_Escape: "Unescape (Escape x) = Returned (Inr x)"
  by (simp add: Unescape_def Escape_def unescape_escape)

lemma ishex_not_percent: "ishex c \<Longrightarrow> c \<noteq> CHR ''%''"
  by (auto simp: ishex_def)

lemma percent_decode_Cons_other:
  "c \<noteq> CHR ''%'' \<Longrightarrow> percent_decode (c # s) = c # percent_decode s"
  by (cases "(c # s)" rule: percent_decode.cases) auto

lemma bad_percent_skip:
  "ishex h1 \<Longrightarrow> ishex h2 \<Longrightarrow> bad_percent (CHR ''%'' # h1 # h2 # s) = bad_percent s"
  by (auto simp: two_hex_def dest: ishex_not_percent)

lemma unescape_check_Inl:
  "unescape_check s = Inl e \<Longrightarrow> bad_percent s \<and> (\<exists>x. e = EscapeError x)"
proof (induction s arbitrary: e rule: unescape_check.induct)
  case 1
  then show ?case by simp
next
  case (2 c s)
  show ?case
  proof (cases "c = CHR ''%''")
    case False
    with 2 show ?thesis by simp
  next
    case True
    show ?thesis
    proof (cases "two_hex s")
      case False
      with True 2(3) show ?thesis
        by (auto simp: two_hex_def split: list.splits if_splits)
    next
      case th: True
      then obtain h1 h2 s' where s: "s = h1 # h2 # s'" and h: "ishex h1" "ishex h2"
        by (auto simp: two_hex_def split: list.splits)
      from 2(3) True s h have "unescape_check s' = Inl e"
        by (simp split: sum.splits)
      with 2(1) [OF True s] h have "bad_percent s' \<and> (\<exists>x. e = EscapeError x)"
        by simp
      with True s h show ?thesis
        using bad_percent_skip [of h1 h2 s'] by simp
    qed
  qed
qed

lemma unescape_check_Inr:
  "unescape_check s = Inr n \<Longrightarrow>
     \<not> bad_percent s \<and> unescape_loop s = Some (percent_decode s) \<and>
     (n = 0 \<longrightarrow> percent_decode s = s)"
proof (induction s arbitrary: n rule: unescape_check.induct)
  case 1
  then show ?case by simp
next
  case (2 c s)
  show ?case
  proof (cases "c = CHR ''%''")
    case False
    with 2 show ?thesis by (simp add: percent_decode_Cons_other)
  next
    case True
    from 2(3) True obtain h1 h2 s' where s: "s = h1 # h2 # s'" and h: "ishex h1" "ishex h2"
      by (auto split: list.splits if_splits)
    from 2(3) True s h obtain m where m: "unescape_check s' = Inr m" and n: "n = Suc m"
      by (auto split: sum.splits)
    from 2(1) [OF True s] h m
    have "\<not> bad_percent s' \<and> unescape_loop s' = Some (percent_decode s')"
      by simp
    with True s h n show ?thesis
      using bad_percent_skip [of h1 h2 s'] by simp
  qed
qed

text \<open>
  C7. \<^verbatim>\<open>Unescape\<close> fails, with an \<^verbatim>\<open>EscapeError\<close>, exactly when some \<^verbatim>\<open>%\<close> of its
  argument is not followed by two hexadecimal digits; otherwise it returns the argument
  with every \<^verbatim>\<open>%XX\<close> decoded to its byte and every other character unchanged (so
  \<^verbatim>\<open>+\<close> stays \<^verbatim>\<open>+\<close>). No other input is invalid, and it never panics.
\<close>

theorem Unescape_decodes_or_fails:
  "(bad_percent s \<longrightarrow> (\<exists>x. Unescape s = Returned (Inl (EscapeError x)))) \<and>
   (\<not> bad_percent s \<longrightarrow> Unescape s = Returned (Inr (percent_decode s)))"
proof (cases "unescape_check s")
  case (Inl e)
  with unescape_check_Inl [OF Inl] show ?thesis
    by (auto simp: Unescape_def unescape_def)
next
  case (Inr n)
  with unescape_check_Inr [OF Inr] show ?thesis
    by (auto simp: Unescape_def unescape_def)
qed

text \<open>
  The theorem at two inputs: one with two escapes and a \<^verbatim>\<open>+\<close>, one that ends in a
  \<^verbatim>\<open>%\<close>.
\<close>

theorem Unescape_decodes_or_fails_witness:
  "\<not> bad_percent ''a+b%41%7e'' \<and> Unescape ''a+b%41%7e'' = Returned (Inr ''a+bA~'') \<and>
   bad_percent ''50%'' \<and> (\<exists>x. Unescape ''50%'' = Returned (Inl (EscapeError x)))"
proof -
  have a: "\<not> bad_percent ''a+b%41%7e''"
    by (simp add: two_hex_def ishex_def)
  have b: "bad_percent ''50%''"
    by (simp add: two_hex_def)
  have c: "percent_decode ''a+b%41%7e'' = ''a+bA~''"
    by code_simp
  from Unescape_decodes_or_fails [of "''a+b%41%7e''"] Unescape_decodes_or_fails [of "''50%''"] a b c
  show ?thesis by simp
qed

section \<open>Properties of the parser\<close>

lemma parse_Data_not_None:
  "parse p items = Returned (p', None) \<Longrightarrow> Data (du p') \<noteq> None"
proof (induction items arbitrary: p)
  case Nil
  then show ?case by simp
next
  case (Cons i items)
  show ?case
  proof (cases "t i")
    case itemEOF
    with Cons.prems show ?thesis by (auto split: if_splits)
  next
    case itemParamVal
    with Cons show ?thesis
      by (auto split: if_splits sum.splits outcome.splits)
  next
    case itemData
    with Cons show ?thesis
      by (auto split: option.splits sum.splits outcome.splits)
  qed (use Cons in \<open>auto split: if_splits\<close>)
qed

lemma parse_no_Data_token:
  "parse p items = Returned (p', None) \<Longrightarrow> Data (du p) = None \<Longrightarrow>
   \<forall>i \<in> set (takeWhile (\<lambda>i. t i \<noteq> itemEOF) items). t i \<noteq> itemData \<Longrightarrow>
   Data (du p') = Some []"
proof (induction items arbitrary: p)
  case Nil
  then show ?case by simp
next
  case (Cons i items)
  show ?case
  proof (cases "t i")
    case itemEOF
    with Cons.prems show ?thesis by (auto split: if_splits)
  next
    case itemParamVal
    with Cons.prems show ?thesis
      by (auto split: if_splits sum.splits outcome.splits intro!: Cons.IH)
  next
    case itemData
    with Cons.prems show ?thesis by simp
  next
    case itemDataComma
    with Cons.prems show ?thesis
      by (auto split: if_splits intro!: Cons.IH)
  qed (use Cons.prems in \<open>auto intro!: Cons.IH\<close>)
qed

text \<open>
  Where a \<^verbatim>\<open>charset\<close> entry of the final parameters can come from: the parameters
  the parse started with, the attribute name it started with, or a ParamAttr token.
\<close>

lemma parse_charset_origin:
  "parse p items = Returned (p', None) \<Longrightarrow> Params (du p') ''charset'' \<noteq> None \<Longrightarrow>
   Params (du p) ''charset'' \<noteq> None \<or> currentAttr p = ''charset'' \<or>
   (\<exists>i \<in> set (takeWhile (\<lambda>i. t i \<noteq> itemEOF) items). t i = itemParamAttr \<and> val i = ''charset'')"
proof (induction items arbitrary: p)
  case Nil
  then show ?case by simp
next
  case (Cons i items)
  show ?case
  proof (cases "t i")
    case itemEOF
    with Cons.prems show ?thesis by (auto split: if_splits)
  next
    case itemError
    with Cons.prems show ?thesis by simp
  next
    case itemParamVal
    with Cons.prems show ?thesis
      by (auto split: if_splits sum.splits outcome.splits dest!: Cons.IH)
  next
    case itemData
    with Cons.prems show ?thesis
      by (auto split: option.splits sum.splits outcome.splits dest!: Cons.IH)
  next
    case itemDataComma
    with Cons.prems show ?thesis
      by (auto split: if_splits dest!: Cons.IH)
  qed (use Cons.prems in \<open>auto dest!: Cons.IH\<close>)
qed

lemma parse_charset_after_media_type:
  "parse p items = Returned (p', None) \<Longrightarrow> Params (du p') ''charset'' \<noteq> None \<Longrightarrow>
   \<exists>i \<in> set (takeWhile (\<lambda>i. t i \<noteq> itemEOF) items). t i = itemMediaType \<Longrightarrow>
   currentAttr p = ''charset'' \<or>
   (\<exists>i \<in> set (takeWhile (\<lambda>i. t i \<noteq> itemEOF) items). t i = itemParamAttr \<and> val i = ''charset'')"
proof (induction items arbitrary: p)
  case Nil
  then show ?case by simp
next
  case (Cons i items)
  show ?case
  proof (cases "t i")
    case itemEOF
    with Cons.prems show ?thesis by simp
  next
    case itemError
    with Cons.prems show ?thesis by simp
  next
    case itemMediaType
    with Cons.prems(1,2) show ?thesis
      by (auto dest!: parse_charset_origin)
  next
    case itemParamVal
    with Cons.prems show ?thesis
      by (auto split: if_splits sum.splits outcome.splits dest!: Cons.IH)
  next
    case itemData
    with Cons.prems show ?thesis
      by (auto split: option.splits sum.splits outcome.splits dest!: Cons.IH)
  next
    case itemDataComma
    with Cons.prems show ?thesis
      by (auto split: if_splits dest!: Cons.IH)
  qed (use Cons.prems in \<open>auto dest!: Cons.IH\<close>)
qed

text \<open>Tokens that neither return nor touch the result lead to the EOF token.\<close>

lemma parse_reaches_EOF:
  "\<forall>j \<in> set pre. t j \<in> {itemDataPrefix, itemMediaSep, itemParamSemicolon, itemParamEqual,
       itemRightStringQuote, itemDataComma} \<Longrightarrow>
   t i = itemEOF \<Longrightarrow> Data (du p) = None \<Longrightarrow>
   \<exists>p'. parse p (pre @ i # rest) = Returned (p', None) \<and> du p' = (du p)\<lparr>Data := Some []\<rparr>"
proof (induction pre arbitrary: p)
  case Nil
  then show ?case by simp
next
  case (Cons j pre)
  from Cons.prems(1)
  consider "t j = itemDataComma"
    | "t j \<in> {itemDataPrefix, itemMediaSep, itemParamSemicolon, itemParamEqual,
         itemRightStringQuote}"
    by auto
  then show ?case
  proof cases
    case 1
    let ?q = "if encodedDataReaderFn p = None
              then p\<lparr>encodedDataReaderFn := Some asciiDataReader\<rparr> else p"
    have "\<exists>p'. parse ?q (pre @ i # rest) = Returned (p', None) \<and>
        du p' = (du ?q)\<lparr>Data := Some []\<rparr>"
      using Cons.prems by (intro Cons.IH) auto
    with 1 show ?thesis by (auto split: if_splits)
  next
    case 2
    have "\<exists>p'. parse p (pre @ i # rest) = Returned (p', None) \<and>
        du p' = (du p)\<lparr>Data := Some []\<rparr>"
      using Cons.prems by (intro Cons.IH) auto
    with 2 show ?thesis by auto
  qed
qed


lemma DecodeString_success:
  "DecodeString lexer s = Returned (Some d, None) \<Longrightarrow>
   \<exists>p'. parse \<lparr>du = MediaType.extend defaultMediaType \<lparr>Encoding = EncodingASCII, Data = None\<rparr>,
               currentAttr = [], unquoteParamVal = False, encodedDataReaderFn = None\<rparr> (lexer s)
           = Returned (p', None) \<and> d = du p'"
  by (auto simp: DecodeString_def Let_def split: outcome.splits option.splits prod.splits)

lemma du0_simps:
  "Data (MediaType.extend defaultMediaType \<lparr>Encoding = EncodingASCII, Data = None\<rparr>) = None"
  "MediaType.extend defaultMediaType \<lparr>Encoding = EncodingASCII, Data = None\<rparr> =
     \<lparr>Type = ''text'', Subtype = ''plain'', Params = [''charset'' \<mapsto> ''US-ASCII''],
      Encoding = EncodingASCII, Data = None\<rparr>"
  by (simp_all add: MediaType.extend_def defaultMediaType_def)

text \<open>Values of the readers and unescapers on the tokens of the test table.\<close>

lemma base64_heya: "base64_DecodeString ''aGV5YQ=='' = (''heya'', None)"
  by (simp add: base64_DecodeString_def decodeMap_def encodeStd_def quantum_bytes_def
      isNewline_def char_of_eq_iff take_bit_eq_mod)

lemma unescape_utf_8: "UnescapeToString ''utf-8'' = Returned (Inr ''utf-8'')"
  by (simp add: UnescapeToString_def unescape_def)

text \<open>
  C3. A parse starts from the type \<^verbatim>\<open>text\<close>, the subtype \<^verbatim>\<open>plain\<close> and the
  parameters \<^verbatim>\<open>{"charset": "US-ASCII"}\<close>: tokens that set nothing leave exactly these
  in the result. A media type token removes the \<^verbatim>\<open>charset\<close> entry when it is
  consumed, before any token after it is applied. So, in the result of a parse that
  consumed a media type token, a \<^verbatim>\<open>charset\<close> entry is there only if the tokens hold
  the attribute name \<^verbatim>\<open>charset\<close>.
\<close>

theorem default_media_type_and_charset:
  "(lexer s = pre @ [i] \<and> t i = itemEOF \<and>
    (\<forall>j \<in> set pre. t j \<in> {itemDataPrefix, itemMediaSep, itemParamSemicolon, itemParamEqual,
        itemRightStringQuote, itemDataComma}) \<longrightarrow>
      DecodeString lexer s =
        Returned (Some \<lparr>Type = ''text'', Subtype = ''plain'',
                         Params = [''charset'' \<mapsto> ''US-ASCII''],
                         Encoding = EncodingASCII, Data = Some []\<rparr>, None)) \<and>
   (t i = itemMediaType \<longrightarrow>
      parse p (i # items) =
        parse (p\<lparr>du := (du p)\<lparr>Type := val i,
                                 Params := (Params (du p))(''charset'' := None)\<rparr>\<rparr>) items) \<and>
   (DecodeString lexer s = Returned (Some d, None) \<and>
    (\<exists>j \<in> set (takeWhile (\<lambda>j. t j \<noteq> itemEOF) (lexer s)). t j = itemMediaType) \<and>
    Params d ''charset'' \<noteq> None \<longrightarrow>
      (\<exists>j \<in> set (takeWhile (\<lambda>j. t j \<noteq> itemEOF) (lexer s)).
         t j = itemParamAttr \<and> val j = ''charset''))"
proof (intro conjI impI)
  let ?p0 = "\<lparr>du = MediaType.extend defaultMediaType \<lparr>Encoding = EncodingASCII, Data = None\<rparr>,
              currentAttr = [], unquoteParamVal = False, encodedDataReaderFn = None\<rparr>"
  assume a: "lexer s = pre @ [i] \<and> t i = itemEOF \<and>
    (\<forall>j \<in> set pre. t j \<in> {itemDataPrefix, itemMediaSep, itemParamSemicolon, itemParamEqual,
        itemRightStringQuote, itemDataComma})"
  then have "\<exists>p'. parse ?p0 (pre @ i # []) = Returned (p', None) \<and>
      du p' = (du ?p0)\<lparr>Data := Some []\<rparr>"
    by (intro parse_reaches_EOF) (simp_all add: du0_simps)
  then obtain p' where "parse ?p0 (lexer s) = Returned (p', None)"
    and "du p' = (du ?p0)\<lparr>Data := Some []\<rparr>"
    using a by auto
  then show "DecodeString lexer s =
        Returned (Some \<lparr>Type = ''text'', Subtype = ''plain'',
                         Params = [''charset'' \<mapsto> ''US-ASCII''],
                         Encoding = EncodingASCII, Data = Some []\<rparr>, None)"
    by (simp add: DecodeString_def du0_simps)
next
  assume "t i = itemMediaType"
  then show "parse p (i # items) =
        parse (p\<lparr>du := (du p)\<lparr>Type := val i,
                                 Params := (Params (du p))(''charset'' := None)\<rparr>\<rparr>) items"
    by simp
next
  assume a: "DecodeString lexer s = Returned (Some d, None) \<and>
    (\<exists>j \<in> set (takeWhile (\<lambda>j. t j \<noteq> itemEOF) (lexer s)). t j = itemMediaType) \<and>
    Params d ''charset'' \<noteq> None"
  then obtain p' where p':
    "parse \<lparr>du = MediaType.extend defaultMediaType \<lparr>Encoding = EncodingASCII, Data = None\<rparr>,
            currentAttr = [], unquoteParamVal = False, encodedDataReaderFn = None\<rparr> (lexer s)
       = Returned (p', None)" and d: "d = du p'"
    using DecodeString_success by blast
  from parse_charset_after_media_type [OF p'] a d
  show "\<exists>j \<in> set (takeWhile (\<lambda>j. t j \<noteq> itemEOF) (lexer s)).
      t j = itemParamAttr \<and> val j = ''charset''"
    by simp
qed

text \<open>
  The theorem on the tokens of \<^verbatim>\<open>data:,\<close>, which set nothing, and on the tokens of
  \<^verbatim>\<open>data:text/plain;charset=utf-8;base64,aGV5YQ==\<close>, where the media type token
  removes the default and the parameter puts \<^verbatim>\<open>utf-8\<close> in its place.
\<close>

theorem default_media_type_and_charset_witness:
  "DecodeString (\<lambda>s. items_comma) ''data:,'' =
     Returned (Some \<lparr>Type = ''text'', Subtype = ''plain'',
                      Params = [''charset'' \<mapsto> ''US-ASCII''],
                      Encoding = EncodingASCII, Data = Some []\<rparr>, None) \<and>
   (\<exists>d. DecodeString (\<lambda>s. items_charset) ''data:text/plain;charset=utf-8;base64,aGV5YQ=='' =
          Returned (Some d, None) \<and>
        Params d ''charset'' = Some ''utf-8'') \<and>
   (\<exists>j \<in> set (takeWhile (\<lambda>j. t j \<noteq> itemEOF) items_charset). t j = itemMediaType) \<and>
   (\<exists>j \<in> set (takeWhile (\<lambda>j. t j \<noteq> itemEOF) items_charset).
      t j = itemParamAttr \<and> val j = ''charset'')"
proof -
  have comma: "items_comma =
      [\<lparr>t = itemDataPrefix, val = ''data:''\<rparr>, \<lparr>t = itemDataComma, val = '',''\<rparr>] @
      [\<lparr>t = itemEOF, val = []\<rparr>]"
    by (simp add: items_comma_def)
  have first: "DecodeString (\<lambda>s. items_comma) ''data:,'' =
     Returned (Some \<lparr>Type = ''text'', Subtype = ''plain'',
                      Params = [''charset'' \<mapsto> ''US-ASCII''],
                      Encoding = EncodingASCII, Data = Some []\<rparr>, None)"
    using default_media_type_and_charset
      [where lexer = "\<lambda>s. items_comma" and s = "''data:,''"
         and pre = "[\<lparr>t = itemDataPrefix, val = ''data:''\<rparr>, \<lparr>t = itemDataComma, val = '',''\<rparr>]"
         and i = "\<lparr>t = itemEOF, val = []\<rparr>"]
    by (simp add: comma)
  have dec: "\<exists>d. DecodeString (\<lambda>s. items_charset)
          ''data:text/plain;charset=utf-8;base64,aGV5YQ=='' = Returned (Some d, None) \<and>
        Params d ''charset'' = Some ''utf-8''"
    by (simp add: items_charset_def DecodeString_def du0_simps base64_heya unescape_utf_8)
  then obtain d where d: "DecodeString (\<lambda>s. items_charset)
          ''data:text/plain;charset=utf-8;base64,aGV5YQ=='' = Returned (Some d, None)"
      "Params d ''charset'' = Some ''utf-8''"
    by blast
  have mt: "\<exists>j \<in> set (takeWhile (\<lambda>j. t j \<noteq> itemEOF) items_charset). t j = itemMediaType"
    by (simp add: items_charset_def)
  have "\<exists>j \<in> set (takeWhile (\<lambda>j. t j \<noteq> itemEOF) items_charset).
      t j = itemParamAttr \<and> val j = ''charset''"
    using default_media_type_and_charset
      [where lexer = "\<lambda>s. items_charset"
         and s = "''data:text/plain;charset=utf-8;base64,aGV5YQ==''" and d = d]
      d mt
    by simp
  with first dec mt show ?thesis by blast
qed

text \<open>The loop of \<^verbatim>\<open>parse\<close>, pass by pass.\<close>

lemma parse_Cons_pass:
  "parse p (i # items) = (case parse_item p i of Next p' \<Rightarrow> parse p' items | Done r \<Rightarrow> r)"
  by (cases "t i")
     (simp_all add: parse_item_def split: sum.splits outcome.splits option.splits)

lemma parse_consume: "consume p pre = Some q \<Longrightarrow> parse p (pre @ rest) = parse q rest"
proof (induction pre arbitrary: p)
  case Nil
  then show ?case by simp
next
  case (Cons i pre)
  then obtain p1 where p1: "parse_item p i = Next p1" and c: "consume p1 pre = Some q"
    by (auto split: pass.splits)
  have "parse p ((i # pre) @ rest) = parse p1 (pre @ rest)"
    using p1 parse_Cons_pass [of p i "pre @ rest"] by simp
  with Cons.IH [OF c] show ?case
    by simp
qed

lemma parse_consume_None: "consume p pre = None \<Longrightarrow> parse p (pre @ rest) = parse p pre"
proof (induction pre arbitrary: p)
  case Nil
  then show ?case by simp
next
  case (Cons i pre)
  show ?case
  proof (cases "parse_item p i")
    case (Next p1)
    with Cons.prems have "consume p1 pre = None"
      by simp
    from Cons.IH [OF this] Next show ?thesis
      using parse_Cons_pass [of p i "pre @ rest"] parse_Cons_pass [of p i pre] by simp
  next
    case (Done r)
    then show ?thesis
      using parse_Cons_pass [of p i "pre @ rest"] parse_Cons_pass [of p i pre] by simp
  qed
qed

lemma consume_append:
  "consume p (xs @ ys) = (case consume p xs of None \<Rightarrow> None | Some q \<Rightarrow> consume q ys)"
  by (induction xs arbitrary: p) (auto split: pass.splits)

lemma consume_passive:
  "\<forall>j \<in> set pre. t j \<notin> {itemError, itemEOF, itemParamVal, itemData} \<Longrightarrow> consume p pre \<noteq> None"
proof (induction pre arbitrary: p)
  case Nil
  then show ?case by simp
next
  case (Cons i pre)
  then have "\<exists>p1. parse_item p i = Next p1"
    by (cases "t i") (simp_all add: parse_item_def)
  with Cons show ?case
    by auto
qed

lemma consume_Data:
  "consume p pre = Some q \<Longrightarrow> \<forall>j \<in> set pre. t j \<noteq> itemData \<Longrightarrow> Data (du q) = Data (du p)"
proof (induction pre arbitrary: p)
  case Nil
  then show ?case by simp
next
  case (Cons i pre)
  then obtain p1 where p1: "parse_item p i = Next p1" and c: "consume p1 pre = Some q"
    by (auto split: pass.splits)
  from p1 Cons.prems(2) have "Data (du p1) = Data (du p)"
    by (cases "t i")
       (auto simp: parse_item_def split: if_splits sum.splits outcome.splits option.splits)
  with Cons.IH [OF c] Cons.prems(2) show ?case
    by simp
qed

lemma consume_snoc:
  "consume p (pre @ [x]) = Some q \<longleftrightarrow> (\<exists>q0. consume p pre = Some q0 \<and> parse_item q0 x = Next q)"
  by (auto simp: consume_append split: option.splits pass.splits)

lemma consume_currentAttr_kept:
  "consume p mid = Some q \<Longrightarrow> \<forall>j \<in> set mid. t j \<noteq> itemParamAttr \<Longrightarrow> currentAttr q = currentAttr p"
proof (induction mid arbitrary: p)
  case Nil
  then show ?case by simp
next
  case (Cons i mid)
  then obtain p1 where p1: "parse_item p i = Next p1" and c: "consume p1 mid = Some q"
    by (auto split: pass.splits)
  from p1 Cons.prems(2) have "currentAttr p1 = currentAttr p"
    by (cases "t i")
       (auto simp: parse_item_def split: if_splits sum.splits outcome.splits option.splits)
  with Cons.IH [OF c] Cons.prems(2) show ?case
    by simp
qed

lemma consume_currentAttr:
  assumes "consume p (pre @ a # mid) = Some q" and "t a = itemParamAttr"
    and "\<forall>j \<in> set mid. t j \<noteq> itemParamAttr"
  shows "currentAttr q = val a"
proof -
  from assms(1) obtain q0 where "consume p pre = Some q0" and "consume q0 (a # mid) = Some q"
    by (auto simp: consume_append split: option.splits)
  with assms(2) have "consume (q0\<lparr>currentAttr := val a\<rparr>) mid = Some q"
    by (simp add: parse_item_def)
  from consume_currentAttr_kept [OF this assms(3)] show ?thesis
    by simp
qed

text \<open>
  The flag \<^verbatim>\<open>unquoteParamVal\<close> in terms of the tokens: it is set after a LeftQuote
  token, and it is not set when no LeftQuote token has come since the last ParamVal
  token (or since the start, with the flag not set there).
\<close>

lemma consume_LeftQuote:
  "consume p (pre @ [l]) = Some q \<Longrightarrow> t l = itemLeftStringQuote \<Longrightarrow> unquoteParamVal q"
  by (auto simp: consume_snoc parse_item_def)

lemma consume_no_LeftQuote:
  "consume p pre = Some q \<Longrightarrow> \<not> unquoteParamVal p \<Longrightarrow>
   \<forall>j \<in> set (takeWhile (\<lambda>j. t j \<noteq> itemParamVal) (rev pre)). t j \<noteq> itemLeftStringQuote \<Longrightarrow>
   \<not> unquoteParamVal q"
proof (induction pre arbitrary: q rule: rev_induct)
  case Nil
  then show ?case by simp
next
  case (snoc x xs)
  from snoc.prems(1) obtain q0 where q0: "consume p xs = Some q0" and x: "parse_item q0 x = Next q"
    by (auto simp: consume_snoc)
  show ?case
  proof (cases "t x = itemParamVal")
    case True
    with x show ?thesis
      by (auto simp: parse_item_def split: if_splits sum.splits outcome.splits)
  next
    case False
    with snoc.prems(3) have "t x \<noteq> itemLeftStringQuote"
      and "\<forall>j \<in> set (takeWhile (\<lambda>j. t j \<noteq> itemParamVal) (rev xs)). t j \<noteq> itemLeftStringQuote"
      by simp_all
    from snoc.IH [OF q0 snoc.prems(2) this(2)] this(1) False x show ?thesis
      by (cases "t x")
         (auto simp: parse_item_def split: if_splits sum.splits outcome.splits option.splits)
  qed
qed

text \<open>
  C5. Let the loop have gone through the tokens \<open>pre\<close> without returning, none of
  them a Data token, and let it meet an EOF token next, with or without a DataComma
  token before it. Then the parse returns, with a \<^verbatim>\<open>nil\<close> error, the state that the
  tokens of \<open>pre\<close> have built, with \<^verbatim>\<open>Data\<close> set to the empty byte sequence, and
  \<^verbatim>\<open>DecodeString\<close> returns that data URL. Tokens of the kinds that neither end the
  loop nor can fail are always gone through. A parse that returns without an error has
  set \<^verbatim>\<open>Data\<close>; it is the empty sequence if no Data token came before the EOF token.
\<close>

theorem EOF_without_Data_gives_empty_data:
  "(t i = itemEOF \<and> consume p pre = Some q \<and> Data (du p) = None \<and>
    (\<forall>j \<in> set pre. t j \<noteq> itemData) \<longrightarrow>
      parse p (pre @ i # items) = Returned (q\<lparr>du := (du q)\<lparr>Data := Some []\<rparr>\<rparr>, None)) \<and>
   (lexer s = pre @ i # items \<and> t i = itemEOF \<and>
    consume \<lparr>du = MediaType.extend defaultMediaType \<lparr>Encoding = EncodingASCII, Data = None\<rparr>,
             currentAttr = [], unquoteParamVal = False, encodedDataReaderFn = None\<rparr> pre = Some q \<and>
    (\<forall>j \<in> set pre. t j \<noteq> itemData) \<longrightarrow>
      DecodeString lexer s = Returned (Some ((du q)\<lparr>Data := Some []\<rparr>), None)) \<and>
   ((\<forall>j \<in> set pre. t j \<notin> {itemError, itemEOF, itemParamVal, itemData}) \<longrightarrow>
      consume p pre \<noteq> None) \<and>
   (t i = itemEOF \<and> Data (du p) = None \<longrightarrow>
      parse p (i # items) = Returned (p\<lparr>du := (du p)\<lparr>Data := Some []\<rparr>\<rparr>, None)) \<and>
   (parse p items = Returned (p', None) \<longrightarrow> Data (du p') \<noteq> None) \<and>
   (parse p items = Returned (p', None) \<and> Data (du p) = None \<and>
    (\<forall>j \<in> set (takeWhile (\<lambda>j. t j \<noteq> itemEOF) items). t j \<noteq> itemData) \<longrightarrow>
      Data (du p') = Some []) \<and>
   (DecodeString lexer s = Returned (Some d, None) \<longrightarrow>
      Data d \<noteq> None \<and>
      ((\<forall>j \<in> set (takeWhile (\<lambda>j. t j \<noteq> itemEOF) (lexer s)). t j \<noteq> itemData) \<longrightarrow>
         Data d = Some []))"
proof (intro conjI impI)
  assume a: "t i = itemEOF \<and> consume p pre = Some q \<and> Data (du p) = None \<and>
    (\<forall>j \<in> set pre. t j \<noteq> itemData)"
  then have "Data (du q) = None"
    using consume_Data [of p pre q] by simp
  with a parse_consume [of p pre q "i # items"]
  show "parse p (pre @ i # items) = Returned (q\<lparr>du := (du q)\<lparr>Data := Some []\<rparr>\<rparr>, None)"
    by simp
next
  let ?p0 = "\<lparr>du = MediaType.extend defaultMediaType \<lparr>Encoding = EncodingASCII, Data = None\<rparr>,
             currentAttr = [], unquoteParamVal = False, encodedDataReaderFn = None\<rparr>"
  assume a: "lexer s = pre @ i # items \<and> t i = itemEOF \<and> consume ?p0 pre = Some q \<and>
    (\<forall>j \<in> set pre. t j \<noteq> itemData)"
  then have "Data (du q) = None"
    using consume_Data [of ?p0 pre q] by (simp add: du0_simps)
  with a parse_consume [of ?p0 pre q "i # items"]
  have "parse ?p0 (lexer s) = Returned (q\<lparr>du := (du q)\<lparr>Data := Some []\<rparr>\<rparr>, None)"
    by simp
  then show "DecodeString lexer s = Returned (Some ((du q)\<lparr>Data := Some []\<rparr>), None)"
    by (simp add: DecodeString_def)
next
  assume "\<forall>j \<in> set pre. t j \<notin> {itemError, itemEOF, itemParamVal, itemData}"
  then show "consume p pre \<noteq> None"
    by (rule consume_passive)
next
  assume "t i = itemEOF \<and> Data (du p) = None"
  then show "parse p (i # items) = Returned (p\<lparr>du := (du p)\<lparr>Data := Some []\<rparr>\<rparr>, None)"
    by simp
next
  assume "parse p items = Returned (p', None)"
  then show "Data (du p') \<noteq> None"
    by (rule parse_Data_not_None)
next
  assume "parse p items = Returned (p', None) \<and> Data (du p) = None \<and>
    (\<forall>j \<in> set (takeWhile (\<lambda>j. t j \<noteq> itemEOF) items). t j \<noteq> itemData)"
  then show "Data (du p') = Some []"
    using parse_no_Data_token by blast
next
  assume "DecodeString lexer s = Returned (Some d, None)"
  then show "Data d \<noteq> None"
    using DecodeString_success parse_Data_not_None by blast
next
  assume a: "DecodeString lexer s = Returned (Some d, None)"
    and b: "\<forall>j \<in> set (takeWhile (\<lambda>j. t j \<noteq> itemEOF) (lexer s)). t j \<noteq> itemData"
  from DecodeString_success [OF a] obtain p' where
    "parse \<lparr>du = MediaType.extend defaultMediaType \<lparr>Encoding = EncodingASCII, Data = None\<rparr>,
            currentAttr = [], unquoteParamVal = False, encodedDataReaderFn = None\<rparr> (lexer s)
       = Returned (p', None)" and "d = du p'"
    by blast
  with b show "Data d = Some []"
    using parse_no_Data_token by (fastforce simp: du0_simps)
qed

text \<open>
  The theorem on the tokens that the test table gives for \<^verbatim>\<open>data:,\<close>, where the
  input ends at the comma, and on a parse that meets the EOF token with no comma before
  it, after the tokens of \<^verbatim>\<open>data:text/html;charset=utf-8\<close>: what these have set is
  returned, with empty data.
\<close>

theorem EOF_without_Data_gives_empty_data_witness:
  "DecodeString (\<lambda>s. items_comma) ''data:,'' =
     Returned (Some \<lparr>Type = ''text'', Subtype = ''plain'',
                      Params = [''charset'' \<mapsto> ''US-ASCII''],
                      Encoding = EncodingASCII, Data = Some []\<rparr>, None) \<and>
   (\<exists>p'. parse \<lparr>du = MediaType.extend defaultMediaType \<lparr>Encoding = EncodingASCII, Data = None\<rparr>,
               currentAttr = [], unquoteParamVal = False, encodedDataReaderFn = None\<rparr>
           [\<lparr>t = itemDataPrefix, val = ''data:''\<rparr>, \<lparr>t = itemMediaType, val = ''text''\<rparr>,
            \<lparr>t = itemMediaSep, val = ''/''\<rparr>, \<lparr>t = itemMediaSubType, val = ''html''\<rparr>,
            \<lparr>t = itemParamSemicolon, val = '';''\<rparr>, \<lparr>t = itemParamAttr, val = ''charset''\<rparr>,
            \<lparr>t = itemParamEqual, val = ''=''\<rparr>, \<lparr>t = itemParamVal, val = ''utf-8''\<rparr>,
            \<lparr>t = itemEOF, val = []\<rparr>]
         = Returned (p', None) \<and>
        du p' = \<lparr>Type = ''text'', Subtype = ''html'', Params = [''charset'' \<mapsto> ''utf-8''],
                 Encoding = EncodingASCII, Data = Some []\<rparr>)"
proof -
  let ?p0 = "\<lparr>du = MediaType.extend defaultMediaType \<lparr>Encoding = EncodingASCII, Data = None\<rparr>,
      currentAttr = [], unquoteParamVal = False, encodedDataReaderFn = None\<rparr>"
  let ?pre1 = "[\<lparr>t = itemDataPrefix, val = ''data:''\<rparr>, \<lparr>t = itemDataComma, val = '',''\<rparr>]"
  let ?q1 = "\<lparr>du = \<lparr>Type = ''text'', Subtype = ''plain'', Params = [''charset'' \<mapsto> ''US-ASCII''],
                   Encoding = EncodingASCII, Data = None\<rparr>,
              currentAttr = [], unquoteParamVal = False,
              encodedDataReaderFn = Some asciiDataReader\<rparr>"
  let ?pre2 = "[\<lparr>t = itemDataPrefix, val = ''data:''\<rparr>, \<lparr>t = itemMediaType, val = ''text''\<rparr>,
            \<lparr>t = itemMediaSep, val = ''/''\<rparr>, \<lparr>t = itemMediaSubType, val = ''html''\<rparr>,
            \<lparr>t = itemParamSemicolon, val = '';''\<rparr>, \<lparr>t = itemParamAttr, val = ''charset''\<rparr>,
            \<lparr>t = itemParamEqual, val = ''=''\<rparr>, \<lparr>t = itemParamVal, val = ''utf-8''\<rparr>]"
  let ?q2 = "\<lparr>du = \<lparr>Type = ''text'', Subtype = ''html'', Params = [''charset'' \<mapsto> ''utf-8''],
                   Encoding = EncodingASCII, Data = None\<rparr>,
              currentAttr = ''charset'', unquoteParamVal = False, encodedDataReaderFn = None\<rparr>"
  have c1: "consume ?p0 ?pre1 = Some ?q1"
    by (simp add: parse_item_def du0_simps)
  have c2: "consume ?p0 ?pre2 = Some ?q2"
    by (simp add: parse_item_def du0_simps unescape_utf_8)
  have "DecodeString (\<lambda>s. items_comma) ''data:,'' = Returned (Some ((du ?q1)\<lparr>Data := Some []\<rparr>), None)"
    using EOF_without_Data_gives_empty_data
      [where lexer = "\<lambda>s. items_comma" and s = "''data:,''" and pre = ?pre1
         and i = "\<lparr>t = itemEOF, val = []\<rparr>" and items = "[]" and q = ?q1] c1
    by (simp add: items_comma_def)
  moreover have "parse ?p0 (?pre2 @ \<lparr>t = itemEOF, val = []\<rparr> # []) =
      Returned (?q2\<lparr>du := (du ?q2)\<lparr>Data := Some []\<rparr>\<rparr>, None)"
    using EOF_without_Data_gives_empty_data
      [where p = ?p0 and pre = ?pre2 and i = "\<lparr>t = itemEOF, val = []\<rparr>" and items = "[]"
         and q = ?q2] c2
    by (simp add: du0_simps)
  ultimately show ?thesis
    by simp
qed



text \<open>What the percent-unescaping of the package returns, in the specification's terms.\<close>

lemma unescape_cases:
  "(bad_percent s \<longrightarrow> (\<exists>x. unescape s = Returned (Inl (EscapeError x)))) \<and>
   (\<not> bad_percent s \<longrightarrow> unescape s = Returned (Inr (percent_decode s)))"
proof (cases "unescape_check s")
  case (Inl e)
  with unescape_check_Inl [OF Inl] show ?thesis
    by (auto simp: unescape_def)
next
  case (Inr n)
  with unescape_check_Inr [OF Inr] show ?thesis
    by (auto simp: unescape_def)
qed

text \<open>Single steps of the unquoting loop.\<close>

declare Unquote_loop.simps [simp del]

lemma Unquote_loop_Cons:
  "UnquoteChar (c # s) (CHR 0x22) = Inr (r, False, s') \<Longrightarrow>
   Unquote_loop (c # s) =
     (case Unquote_loop s' of Inl e \<Rightarrow> Inl e | Inr buf \<Rightarrow> Inr (char_of r # buf))"
  by (subst Unquote_loop.simps) (simp split: sum.splits)

lemma Unquote_loop_error:
  "UnquoteChar (c # s) (CHR 0x22) = Inl e \<Longrightarrow> Unquote_loop (c # s) = Inl e"
  by (subst Unquote_loop.simps) simp

lemma Unquote_quoted_step:
  assumes "UnquoteChar (c # d # s) (CHR 0x22) = Inr (r, False, s)" and "c \<noteq> CHR 0x0A"
    and "d \<noteq> CHR 0x0A"
  shows "Unquote_quoted (c # d # s) =
     (case Unquote_quoted s of Inl e \<Rightarrow> Inl e | Inr buf \<Rightarrow> Inr (char_of r # buf))"
  using assms Unquote_loop_Cons [OF assms(1)] by (simp add: Unquote_quoted_def)

lemma Unquote_quoted_escaped_quote:
  "Unquote_quoted (CHR 0x5C # CHR 0x22 # s) =
     (case Unquote_quoted s of Inl e \<Rightarrow> Inl e | Inr buf \<Rightarrow> Inr (CHR 0x22 # buf))"
proof -
  have "UnquoteChar (CHR 0x5C # CHR 0x22 # s) (CHR 0x22) = Inr (0x22, False, s)"
    by (simp add: UnquoteChar_def RuneSelf_def isOctal_def)
  moreover have "char_of (0x22 :: nat) = CHR 0x22" "char_of (0x5C :: nat) = CHR 0x5C"
    "char_of (10 :: nat) = CHR 0x0A"
    by (simp_all add: char_of_eq_iff take_bit_eq_mod)
  ultimately show ?thesis
    using Unquote_quoted_step [of "CHR 0x5C" _ s] by (simp split: sum.splits)
qed

lemma Unquote_quoted_escaped_backslash:
  "Unquote_quoted (CHR 0x5C # CHR 0x5C # s) =
     (case Unquote_quoted s of Inl e \<Rightarrow> Inl e | Inr buf \<Rightarrow> Inr (CHR 0x5C # buf))"
proof -
  have "UnquoteChar (CHR 0x5C # CHR 0x5C # s) (CHR 0x22) = Inr (0x5C, False, s)"
    by (simp add: UnquoteChar_def RuneSelf_def isOctal_def)
  moreover have "char_of (0x22 :: nat) = CHR 0x22" "char_of (0x5C :: nat) = CHR 0x5C"
    "char_of (10 :: nat) = CHR 0x0A"
    by (simp_all add: char_of_eq_iff take_bit_eq_mod)
  ultimately show ?thesis
    using Unquote_quoted_step [of "CHR 0x5C" _ s] by (simp split: sum.splits)
qed

lemma Unquote_quoted_escaped_n:
  "Unquote_quoted (CHR 0x5C # CHR ''n'' # s) =
     (case Unquote_quoted s of Inl e \<Rightarrow> Inl e | Inr buf \<Rightarrow> Inr (CHR 0x0A # buf))"
proof -
  have "UnquoteChar (CHR 0x5C # CHR ''n'' # s) (CHR 0x22) = Inr (10, False, s)"
    by (simp add: UnquoteChar_def RuneSelf_def)
  moreover have "char_of (0x22 :: nat) = CHR 0x22" "char_of (0x5C :: nat) = CHR 0x5C"
    "char_of (10 :: nat) = CHR 0x0A"
    by (simp_all add: char_of_eq_iff take_bit_eq_mod)
  ultimately show ?thesis
    using Unquote_quoted_step [of "CHR 0x5C" _ s] by (simp split: sum.splits)
qed

lemma Unquote_quoted_plain:
  assumes "of_char c < (0x80 :: nat)" and "c \<notin> {CHR 0x5C, CHR 0x22, CHR 0x0A}"
  shows "Unquote_quoted (c # s) =
     (case Unquote_quoted s of Inl e \<Rightarrow> Inl e | Inr buf \<Rightarrow> Inr (c # buf))"
proof -
  have "UnquoteChar (c # s) (CHR 0x22) = Inr (of_char c, False, s)"
    using assms by (simp add: UnquoteChar_def RuneSelf_def)
  from Unquote_loop_Cons [OF this] assms show ?thesis
    by (auto simp: Unquote_quoted_def split: sum.splits)
qed

lemma Unquote_quoted_unknown_escape:
  "Unquote_quoted (CHR 0x5C # CHR ''q'' # s) = Inl ErrSyntax"
proof -
  have "UnquoteChar (CHR 0x5C # CHR ''q'' # s) (CHR 0x22) = Inl ErrSyntax"
    by (simp add: UnquoteChar_def RuneSelf_def isOctal_def)
  from Unquote_loop_error [OF this] show ?thesis
    by (simp add: Unquote_quoted_def)
qed

lemma Unquote_quoted_Nil: "Unquote_quoted [] = Inr []"
  by (simp add: Unquote_quoted_def Unquote_loop.simps)

text \<open>
  C4, as the code has it. A ParamVal token that comes right after a LeftQuote token is
  unquoted with Go's rules for a double-quoted string (\<^verbatim>\<open>strconv.Unquote\<close> on the
  value between quotes): \<^verbatim>\<open>\"\<close> becomes \<^verbatim>\<open>"\<close>, \<^verbatim>\<open>\\\<close> becomes \<^verbatim>\<open>\\<close>,
  \<^verbatim>\<open>\n\<close> becomes a line feed, a plain ASCII character stays, and an escape that Go
  does not have (\<^verbatim>\<open>\q\<close>) is a syntax error. A ParamVal token with no LeftQuote token
  between it and the ParamVal token before it (or the start of the tokens) is
  percent-unescaped. A failure returns from the parse with that error; otherwise the
  value is stored under the current attribute name, which is the value of the last
  ParamAttr token, and a second value for the same name replaces the first. Here
  \<open>q\<close> is the state that the tokens before the ParamVal token have built.
\<close>

theorem ParamVal_unescaped_and_stored:
  "(consume p (pre @ [l]) = Some q \<and> t l = itemLeftStringQuote \<and> t i = itemParamVal \<and>
    Unquote_quoted (val i) = Inr us \<longrightarrow>
      parse p (pre @ l # i # items) =
        parse (q\<lparr>unquoteParamVal := False,
                 du := (du q)\<lparr>Params := (Params (du q))(currentAttr q \<mapsto> us)\<rparr>\<rparr>) items) \<and>
   (consume p (pre @ [l]) = Some q \<and> t l = itemLeftStringQuote \<and> t i = itemParamVal \<and>
    Unquote_quoted (val i) = Inl err \<longrightarrow>
      parse p (pre @ l # i # items) = Returned (q\<lparr>unquoteParamVal := False\<rparr>, Some err)) \<and>
   (consume p pre = Some q \<and> \<not> unquoteParamVal p \<and> t i = itemParamVal \<and>
    (\<forall>j \<in> set (takeWhile (\<lambda>j. t j \<noteq> itemParamVal) (rev pre)). t j \<noteq> itemLeftStringQuote) \<and>
    \<not> bad_percent (val i) \<longrightarrow>
      parse p (pre @ i # items) =
        parse (q\<lparr>du := (du q)\<lparr>Params :=
                 (Params (du q))(currentAttr q \<mapsto> percent_decode (val i))\<rparr>\<rparr>) items) \<and>
   (consume p pre = Some q \<and> \<not> unquoteParamVal p \<and> t i = itemParamVal \<and>
    (\<forall>j \<in> set (takeWhile (\<lambda>j. t j \<noteq> itemParamVal) (rev pre)). t j \<noteq> itemLeftStringQuote) \<and>
    bad_percent (val i) \<longrightarrow>
      (\<exists>x. parse p (pre @ i # items) = Returned (q, Some (EscapeError x)))) \<and>
   (consume p (pre @ a # mid) = Some q \<and> t a = itemParamAttr \<and>
    (\<forall>j \<in> set mid. t j \<noteq> itemParamAttr) \<longrightarrow>
      currentAttr q = val a) \<and>
   (t a = itemParamAttr \<and> t i = itemParamVal \<and> t j = itemParamVal \<and> \<not> unquoteParamVal p \<and>
    \<not> bad_percent (val i) \<and> \<not> bad_percent (val j) \<longrightarrow>
      parse p (a # i # a # j # items) = parse p (a # j # items)) \<and>
   Unquote_quoted (CHR 0x5C # CHR 0x22 # v) =
     (case Unquote_quoted v of Inl e \<Rightarrow> Inl e | Inr buf \<Rightarrow> Inr (CHR 0x22 # buf)) \<and>
   Unquote_quoted (CHR 0x5C # CHR 0x5C # v) =
     (case Unquote_quoted v of Inl e \<Rightarrow> Inl e | Inr buf \<Rightarrow> Inr (CHR 0x5C # buf)) \<and>
   Unquote_quoted (CHR 0x5C # CHR ''n'' # v) =
     (case Unquote_quoted v of Inl e \<Rightarrow> Inl e | Inr buf \<Rightarrow> Inr (CHR 0x0A # buf)) \<and>
   Unquote_quoted (CHR 0x5C # CHR ''q'' # v) = Inl ErrSyntax \<and>
   (of_char c < (0x80 :: nat) \<and> c \<notin> {CHR 0x5C, CHR 0x22, CHR 0x0A} \<longrightarrow>
      Unquote_quoted (c # v) =
        (case Unquote_quoted v of Inl e \<Rightarrow> Inl e | Inr buf \<Rightarrow> Inr (c # buf)))"
proof (intro conjI impI)
  assume a: "consume p (pre @ [l]) = Some q \<and> t l = itemLeftStringQuote \<and> t i = itemParamVal \<and>
    Unquote_quoted (val i) = Inr us"
  then have "unquoteParamVal q"
    using consume_LeftQuote by blast
  moreover from a have "parse p ((pre @ [l]) @ i # items) = parse q (i # items)"
    by (intro parse_consume) simp
  ultimately show "parse p (pre @ l # i # items) =
        parse (q\<lparr>unquoteParamVal := False,
                 du := (du q)\<lparr>Params := (Params (du q))(currentAttr q \<mapsto> us)\<rparr>\<rparr>) items"
    using a by simp
next
  assume a: "consume p (pre @ [l]) = Some q \<and> t l = itemLeftStringQuote \<and> t i = itemParamVal \<and>
    Unquote_quoted (val i) = Inl err"
  then have "unquoteParamVal q"
    using consume_LeftQuote by blast
  moreover from a have "parse p ((pre @ [l]) @ i # items) = parse q (i # items)"
    by (intro parse_consume) simp
  ultimately show "parse p (pre @ l # i # items) = Returned (q\<lparr>unquoteParamVal := False\<rparr>, Some err)"
    using a by simp
next
  assume a: "consume p pre = Some q \<and> \<not> unquoteParamVal p \<and> t i = itemParamVal \<and>
    (\<forall>j \<in> set (takeWhile (\<lambda>j. t j \<noteq> itemParamVal) (rev pre)). t j \<noteq> itemLeftStringQuote) \<and>
    \<not> bad_percent (val i)"
  then have "\<not> unquoteParamVal q"
    using consume_no_LeftQuote [of p pre q] by blast
  moreover from a have "parse p (pre @ i # items) = parse q (i # items)"
    by (intro parse_consume) simp
  ultimately show "parse p (pre @ i # items) =
        parse (q\<lparr>du := (du q)\<lparr>Params :=
                 (Params (du q))(currentAttr q \<mapsto> percent_decode (val i))\<rparr>\<rparr>) items"
    using a unescape_cases [of "val i"] by (simp add: UnescapeToString_def)
next
  assume a: "consume p pre = Some q \<and> \<not> unquoteParamVal p \<and> t i = itemParamVal \<and>
    (\<forall>j \<in> set (takeWhile (\<lambda>j. t j \<noteq> itemParamVal) (rev pre)). t j \<noteq> itemLeftStringQuote) \<and>
    bad_percent (val i)"
  then have "\<not> unquoteParamVal q"
    using consume_no_LeftQuote [of p pre q] by blast
  moreover from a have "parse p (pre @ i # items) = parse q (i # items)"
    by (intro parse_consume) simp
  ultimately show "\<exists>x. parse p (pre @ i # items) = Returned (q, Some (EscapeError x))"
    using a unescape_cases [of "val i"] by (auto simp: UnescapeToString_def)
next
  assume "consume p (pre @ a # mid) = Some q \<and> t a = itemParamAttr \<and>
    (\<forall>j \<in> set mid. t j \<noteq> itemParamAttr)"
  then show "currentAttr q = val a"
    using consume_currentAttr by blast
next
  assume "t a = itemParamAttr \<and> t i = itemParamVal \<and> t j = itemParamVal \<and>
    \<not> unquoteParamVal p \<and> \<not> bad_percent (val i) \<and> \<not> bad_percent (val j)"
  then show "parse p (a # i # a # j # items) = parse p (a # j # items)"
    using unescape_cases [of "val i"] unescape_cases [of "val j"]
    by (simp add: UnescapeToString_def)
next
  assume "of_char c < (0x80 :: nat) \<and> c \<notin> {CHR 0x5C, CHR 0x22, CHR 0x0A}"
  then show "Unquote_quoted (c # v) =
      (case Unquote_quoted v of Inl e \<Rightarrow> Inl e | Inr buf \<Rightarrow> Inr (c # buf))"
    using Unquote_quoted_plain by blast
qed (simp_all add: Unquote_quoted_escaped_quote Unquote_quoted_escaped_backslash
      Unquote_quoted_escaped_n Unquote_quoted_unknown_escape)

text \<open>
  The theorem on the quoted value \<^verbatim>\<open>b\"r\<close> after the tokens of \<^verbatim>\<open>;foo="\<close> and on
  the value \<^verbatim>\<open>unformatted%20json\<close> after the tokens of \<^verbatim>\<open>;style=\<close>, each followed
  by the EOF token; and the parse of the test table's tokens with both kinds of value.
\<close>

theorem ParamVal_unescaped_and_stored_witness:
  "(\<exists>p'. parse \<lparr>du = MediaType.extend defaultMediaType \<lparr>Encoding = EncodingASCII, Data = None\<rparr>,
               currentAttr = [], unquoteParamVal = False, encodedDataReaderFn = None\<rparr>
           [\<lparr>t = itemParamSemicolon, val = '';''\<rparr>, \<lparr>t = itemParamAttr, val = ''foo''\<rparr>,
            \<lparr>t = itemParamEqual, val = ''=''\<rparr>, \<lparr>t = itemLeftStringQuote, val = [CHR 0x22]\<rparr>,
            \<lparr>t = itemParamVal, val = [CHR ''b'', CHR 0x5C, CHR 0x22, CHR ''r'']\<rparr>,
            \<lparr>t = itemRightStringQuote, val = [CHR 0x22]\<rparr>,
            \<lparr>t = itemEOF, val = []\<rparr>] = Returned (p', None) \<and>
         Params (du p') ''foo'' = Some [CHR ''b'', CHR 0x22, CHR ''r'']) \<and>
   (\<exists>p'. parse \<lparr>du = MediaType.extend defaultMediaType \<lparr>Encoding = EncodingASCII, Data = None\<rparr>,
               currentAttr = [], unquoteParamVal = False, encodedDataReaderFn = None\<rparr>
           [\<lparr>t = itemParamSemicolon, val = '';''\<rparr>, \<lparr>t = itemParamAttr, val = ''style''\<rparr>,
            \<lparr>t = itemParamEqual, val = ''=''\<rparr>,
            \<lparr>t = itemParamVal, val = ''unformatted%20json''\<rparr>,
            \<lparr>t = itemEOF, val = []\<rparr>] = Returned (p', None) \<and>
         Params (du p') ''style'' = Some ''unformatted json'') \<and>
   (\<exists>d. DecodeString (\<lambda>s. items_json)
          (''data:application/json;charset=utf-8;foo='' @ [CHR 0x22] @ ''b'' @
           [CHR 0x5C, CHR 0x22] @ ''<@>'' @ [CHR 0x5C, CHR 0x22] @ ''r'' @ [CHR 0x22] @
           '';style=unformatted%20json;base64,eyJtc2ciOiAiaGV5YSJ9'') = Returned (Some d, None) \<and>
        Params d ''charset'' = Some ''utf-8'' \<and>
        Params d ''foo'' = Some (''b'' @ [CHR 0x22] @ ''<@>'' @ [CHR 0x22] @ ''r'') \<and>
        Params d ''style'' = Some ''unformatted json'')"
proof -
  let ?p0 = "\<lparr>du = MediaType.extend defaultMediaType \<lparr>Encoding = EncodingASCII, Data = None\<rparr>,
      currentAttr = [], unquoteParamVal = False, encodedDataReaderFn = None\<rparr>"
  let ?du0 = "\<lparr>Type = ''text'', Subtype = ''plain'', Params = [''charset'' \<mapsto> ''US-ASCII''],
      Encoding = EncodingASCII, Data = None\<rparr>"
  let ?semi = "\<lparr>t = itemParamSemicolon, val = '';''\<rparr>"
  let ?eq = "\<lparr>t = itemParamEqual, val = ''=''\<rparr>"
  let ?lq = "\<lparr>t = itemLeftStringQuote, val = [CHR 0x22]\<rparr>"
  let ?rq = "\<lparr>t = itemRightStringQuote, val = [CHR 0x22]\<rparr>"
  let ?eof = "\<lparr>t = itemEOF, val = []\<rparr>"
  let ?q1 = "\<lparr>du = ?du0, currentAttr = ''foo'', unquoteParamVal = True,
      encodedDataReaderFn = None\<rparr>"
  let ?q2 = "\<lparr>du = ?du0, currentAttr = ''style'', unquoteParamVal = False,
      encodedDataReaderFn = None\<rparr>"
  have q: "Unquote_quoted [CHR ''b'', CHR 0x5C, CHR 0x22, CHR ''r''] =
      Inr [CHR ''b'', CHR 0x22, CHR ''r'']"
    by (simp add: Unquote_quoted_plain Unquote_quoted_escaped_quote Unquote_quoted_Nil)
  have u: "\<not> bad_percent ''unformatted%20json''"
    by (simp add: two_hex_def ishex_def)
  have pd: "percent_decode ''unformatted%20json'' = ''unformatted json''"
    by (simp add: ishex_def unhex_def char_of_eq_iff take_bit_eq_mod)
  have u2: "UnescapeToString ''unformatted%20json'' = Returned (Inr ''unformatted json'')"
    using unescape_cases [of "''unformatted%20json''"] u pd by (simp add: UnescapeToString_def)
  have c1: "consume ?p0 ([?semi, \<lparr>t = itemParamAttr, val = ''foo''\<rparr>, ?eq] @ [?lq]) = Some ?q1"
    by (simp add: parse_item_def du0_simps)
  have c2: "consume ?p0 [?semi, \<lparr>t = itemParamAttr, val = ''style''\<rparr>, ?eq] = Some ?q2"
    by (simp add: parse_item_def du0_simps)
  have "parse ?p0 ([?semi, \<lparr>t = itemParamAttr, val = ''foo''\<rparr>, ?eq] @ ?lq #
        \<lparr>t = itemParamVal, val = [CHR ''b'', CHR 0x5C, CHR 0x22, CHR ''r'']\<rparr> # [?rq, ?eof]) =
      parse (?q1\<lparr>unquoteParamVal := False,
          du := (du ?q1)\<lparr>Params := (Params (du ?q1))(currentAttr ?q1 \<mapsto>
            [CHR ''b'', CHR 0x22, CHR ''r''])\<rparr>\<rparr>) [?rq, ?eof]"
    using ParamVal_unescaped_and_stored
      [where p = ?p0 and pre = "[?semi, \<lparr>t = itemParamAttr, val = ''foo''\<rparr>, ?eq]" and l = ?lq
         and i = "\<lparr>t = itemParamVal, val = [CHR ''b'', CHR 0x5C, CHR 0x22, CHR ''r'']\<rparr>"
         and items = "[?rq, ?eof]" and q = ?q1 and us = "[CHR ''b'', CHR 0x22, CHR ''r'']"]
      c1 q
    by (simp del: parse.simps consume.simps)
  moreover have "parse (?q1\<lparr>unquoteParamVal := False,
          du := (du ?q1)\<lparr>Params := (Params (du ?q1))(currentAttr ?q1 \<mapsto>
            [CHR ''b'', CHR 0x22, CHR ''r''])\<rparr>\<rparr>) [?rq, ?eof] =
      Returned (\<lparr>du = \<lparr>Type = ''text'', Subtype = ''plain'',
                   Params = [''charset'' \<mapsto> ''US-ASCII'',
                             ''foo'' \<mapsto> [CHR ''b'', CHR 0x22, CHR ''r'']],
                   Encoding = EncodingASCII, Data = Some []\<rparr>,
                 currentAttr = ''foo'', unquoteParamVal = False,
                 encodedDataReaderFn = None\<rparr>, None)"
    by simp
  ultimately have 1: "\<exists>p'. parse ?p0 [?semi, \<lparr>t = itemParamAttr, val = ''foo''\<rparr>, ?eq, ?lq,
        \<lparr>t = itemParamVal, val = [CHR ''b'', CHR 0x5C, CHR 0x22, CHR ''r'']\<rparr>, ?rq, ?eof] =
      Returned (p', None) \<and> Params (du p') ''foo'' = Some [CHR ''b'', CHR 0x22, CHR ''r'']"
    by (simp del: parse.simps)
  have "parse ?p0 ([?semi, \<lparr>t = itemParamAttr, val = ''style''\<rparr>, ?eq] @
        \<lparr>t = itemParamVal, val = ''unformatted%20json''\<rparr> # [?eof]) =
      parse (?q2\<lparr>du := (du ?q2)\<lparr>Params := (Params (du ?q2))(currentAttr ?q2 \<mapsto>
            percent_decode ''unformatted%20json'')\<rparr>\<rparr>) [?eof]"
    using ParamVal_unescaped_and_stored
      [where p = ?p0 and pre = "[?semi, \<lparr>t = itemParamAttr, val = ''style''\<rparr>, ?eq]"
         and i = "\<lparr>t = itemParamVal, val = ''unformatted%20json''\<rparr>"
         and items = "[?eof]" and q = ?q2]
      c2 u
    by (simp del: parse.simps consume.simps)
  moreover have "parse (?q2\<lparr>du := (du ?q2)\<lparr>Params := (Params (du ?q2))(currentAttr ?q2 \<mapsto>
            percent_decode ''unformatted%20json'')\<rparr>\<rparr>) [?eof] =
      Returned (\<lparr>du = \<lparr>Type = ''text'', Subtype = ''plain'',
                   Params = [''charset'' \<mapsto> ''US-ASCII'', ''style'' \<mapsto> ''unformatted json''],
                   Encoding = EncodingASCII, Data = Some []\<rparr>,
                 currentAttr = ''style'', unquoteParamVal = False,
                 encodedDataReaderFn = None\<rparr>, None)"
    unfolding pd by simp
  ultimately have 2: "\<exists>p'. parse ?p0 [?semi, \<lparr>t = itemParamAttr, val = ''style''\<rparr>, ?eq,
        \<lparr>t = itemParamVal, val = ''unformatted%20json''\<rparr>, ?eof] =
      Returned (p', None) \<and> Params (du p') ''style'' = Some ''unformatted json''"
    by (simp del: parse.simps)
  have b64: "base64_DecodeString ''eyJtc2ciOiAiaGV5YSJ9'' =
      (''{'' @ [CHR 0x22] @ ''msg'' @ [CHR 0x22] @ '': '' @ [CHR 0x22] @ ''heya'' @ [CHR 0x22] @ ''}'',
       None)"
    by (simp add: base64_DecodeString_def decodeMap_def encodeStd_def quantum_bytes_def
        isNewline_def char_of_eq_iff take_bit_eq_mod)
  have q2: "Unquote_quoted (''b'' @ [CHR 0x5C, CHR 0x22] @ ''<@>'' @ [CHR 0x5C, CHR 0x22] @ ''r'') =
      Inr (''b'' @ [CHR 0x22] @ ''<@>'' @ [CHR 0x22] @ ''r'')"
    by (simp add: Unquote_quoted_plain Unquote_quoted_escaped_quote Unquote_quoted_Nil)
  have 3: "\<exists>d. DecodeString (\<lambda>s. items_json)
          (''data:application/json;charset=utf-8;foo='' @ [CHR 0x22] @ ''b'' @
           [CHR 0x5C, CHR 0x22] @ ''<@>'' @ [CHR 0x5C, CHR 0x22] @ ''r'' @ [CHR 0x22] @
           '';style=unformatted%20json;base64,eyJtc2ciOiAiaGV5YSJ9'') = Returned (Some d, None) \<and>
        Params d ''charset'' = Some ''utf-8'' \<and>
        Params d ''foo'' = Some (''b'' @ [CHR 0x22] @ ''<@>'' @ [CHR 0x22] @ ''r'') \<and>
        Params d ''style'' = Some ''unformatted json''"
    using q2 by (simp add: items_json_def DecodeString_def du0_simps b64 unescape_utf_8 u2)
  from 1 2 3 show ?thesis by blast
qed

text \<open>
  The claim C4 as the specification words it has a backslash only removed, which makes
  \<^verbatim>\<open>a\nb\<close> into \<^verbatim>\<open>anb\<close>. The parser stores the three bytes \<^verbatim>\<open>a\<close>, line feed,
  \<^verbatim>\<open>b\<close> for this quoted value. And the mark of a LeftQuote token stays until a
  ParamVal token takes it: after the tokens of \<^verbatim>\<open>;a="\<close> and a RightQuote token with
  no ParamVal token between the quotes, the value \<^verbatim>\<open>a%20b\<close> of \<^verbatim>\<open>;b=a%20b\<close>, with no
  quote before it, is unquoted and not percent-unescaped: it is stored as it is written.
\<close>

theorem quoted_value_is_not_only_unbackslashed:
  "(case parse \<lparr>du = MediaType.extend defaultMediaType \<lparr>Encoding = EncodingASCII, Data = None\<rparr>,
               currentAttr = [], unquoteParamVal = False, encodedDataReaderFn = None\<rparr>
           [\<lparr>t = itemParamSemicolon, val = '';''\<rparr>, \<lparr>t = itemParamAttr, val = ''foo''\<rparr>,
            \<lparr>t = itemParamEqual, val = ''=''\<rparr>, \<lparr>t = itemLeftStringQuote, val = [CHR 0x22]\<rparr>,
            \<lparr>t = itemParamVal, val = [CHR ''a'', CHR 0x5C, CHR ''n'', CHR ''b'']\<rparr>,
            \<lparr>t = itemRightStringQuote, val = [CHR 0x22]\<rparr>,
            \<lparr>t = itemEOF, val = []\<rparr>] of
      Returned (p', e) \<Rightarrow> (Params (du p') ''foo'', e)
    | Panicked m \<Rightarrow> (None, None)) = (Some [CHR ''a'', CHR 0x0A, CHR ''b''], None) \<and>
   quoted_pair_unescape [CHR ''a'', CHR 0x5C, CHR ''n'', CHR ''b''] = ''anb'' \<and>
   [CHR ''a'', CHR 0x0A, CHR ''b''] \<noteq> quoted_pair_unescape [CHR ''a'', CHR 0x5C, CHR ''n'', CHR ''b''] \<and>
   (case parse \<lparr>du = MediaType.extend defaultMediaType \<lparr>Encoding = EncodingASCII, Data = None\<rparr>,
               currentAttr = [], unquoteParamVal = False, encodedDataReaderFn = None\<rparr>
           [\<lparr>t = itemParamSemicolon, val = '';''\<rparr>, \<lparr>t = itemParamAttr, val = ''a''\<rparr>,
            \<lparr>t = itemParamEqual, val = ''=''\<rparr>, \<lparr>t = itemLeftStringQuote, val = [CHR 0x22]\<rparr>,
            \<lparr>t = itemRightStringQuote, val = [CHR 0x22]\<rparr>,
            \<lparr>t = itemParamSemicolon, val = '';''\<rparr>, \<lparr>t = itemParamAttr, val = ''b''\<rparr>,
            \<lparr>t = itemParamEqual, val = ''=''\<rparr>, \<lparr>t = itemParamVal, val = ''a%20b''\<rparr>,
            \<lparr>t = itemEOF, val = []\<rparr>] of
      Returned (p', e) \<Rightarrow> (Params (du p') ''b'', e)
    | Panicked m \<Rightarrow> (None, None)) = (Some ''a%20b'', None) \<and>
   percent_decode ''a%20b'' = ''a b''"
proof -
  have 1: "Unquote_quoted [CHR ''a'', CHR 0x5C, CHR ''n'', CHR ''b''] =
      Inr [CHR ''a'', CHR 0x0A, CHR ''b'']"
    by (simp add: Unquote_quoted_plain Unquote_quoted_escaped_n Unquote_quoted_Nil)
  have 2: "Unquote_quoted ''a%20b'' = Inr ''a%20b''"
    by (simp add: Unquote_quoted_plain Unquote_quoted_Nil)
  have 3: "percent_decode ''a%20b'' = ''a b''"
    by (simp add: ishex_def unhex_def char_of_eq_iff take_bit_eq_mod)
  from 1 2 3 show ?thesis
    by (simp add: du0_simps)
qed

section \<open>Properties of the writer\<close>

text \<open>
  C9. The claim: \<^verbatim>\<open>WriteTo\<close> returns the number of bytes it wrote. With the encoding
  \<^verbatim>\<open>ascii\<close> it does: 20 for the 20 bytes of \<^verbatim>\<open>data:text/plain,heya\<close>. With the
  encoding \<^verbatim>\<open>base64\<close> it writes the 31 bytes of
  \<^verbatim>\<open>data:text/plain;base64,aGV5YQ==\<close> into the buffer and returns 23: the count of
  the payload is never added.
\<close>

theorem WriteTo_base64_count_misses_payload:
  "WriteTo Buffer_Write []
     \<lparr>Type = ''text'', Subtype = ''plain'', Params = Map.empty,
      Encoding = EncodingBase64, Data = Some ''heya''\<rparr> [] =
     (''data:text/plain;base64,aGV5YQ=='', 23, None) \<and>
   int (length ''data:text/plain;base64,aGV5YQ=='') = 31 \<and>
   WriteTo Buffer_Write []
     \<lparr>Type = ''text'', Subtype = ''plain'', Params = Map.empty,
      Encoding = EncodingASCII, Data = Some ''heya''\<rparr> [] =
     (''data:text/plain,heya'', 20, None) \<and>
   int (length ''data:text/plain,heya'') = 20"
  by (simp add: WriteTo_def Fprint_def Buffer_Write_def MediaType_String_def ContentType_def
      EncodingBase64_def EncodingASCII_def encoder_Close_def enc64_def encodeStd_def Escape_def
      escape_def
      shouldEscape_def isAlnum_def)

text \<open>An error of the encoder's \<^verbatim>\<open>Write\<close> is an error of a write to the sink.\<close>

lemma encoder_Write_error:
  "encoder_Write Write w p n = (w', n', Some e, buf) \<Longrightarrow>
   \<exists>w0 chunk. snd (snd (Write w0 chunk)) = Some e"
proof (induction Write w p n rule: encoder_Write.induct)
  case (1 Write w p n)
  show ?case
  proof (cases "3 \<le> length p")
    case False
    with 1(2) show ?thesis by simp
  next
    case True
    define nn where "nn = (if 768 > length p then length p - length p mod 3 else 768)"
    obtain w1 k err where wr: "Write w (Encode (take nn p)) = (w1, k, err)"
      by (cases "Write w (Encode (take nn p))") auto
    show ?thesis
    proof (cases err)
      case None
      with 1(2) True wr have "encoder_Write Write w1 (drop nn p) (n + int nn) = (w', n', Some e, buf)"
        by (simp add: nn_def Let_def)
      with 1(1) [OF True nn_def [symmetric, THEN sym] _ _ None] wr None show ?thesis
        by (auto simp: nn_def)
    next
      case (Some e')
      with 1(2) True wr have "e' = e"
        by (simp add: nn_def Let_def)
      with wr Some show ?thesis
        by (metis snd_conv)
    qed
  qed
qed

text \<open>
  C10. Whatever the sink answers to the writes of the prefix, the media type with its
  parameters, the \<^verbatim>\<open>;base64\<close> marker, the comma and the escaped payload,
  \<^verbatim>\<open>WriteTo\<close> does not return their errors: with the encoding \<^verbatim>\<open>ascii\<close> its error
  is \<^verbatim>\<open>nil\<close>; with the encoding \<^verbatim>\<open>base64\<close> its error is the one of the encoder's
  \<^verbatim>\<open>Write\<close> of the payload, which is an error of the sink (the error of the
  encoder's \<^verbatim>\<open>Close\<close> is dropped too); with any other encoding it is the error that
  names the encoding.
\<close>

theorem WriteTo_reports_only_payload_errors:
  "(Encoding d = EncodingASCII \<longrightarrow> snd (snd (WriteTo Write order d w)) = None) \<and>
   (Encoding d = EncodingBase64 \<and>
    Fprint Write w ''data:'' = (w1, n1, e1) \<and>
    Fprint Write w1 (MediaType_String order d) = (w2, n2, e2) \<and>
    Fprint Write w2 '';base64'' = (w3, n3, e3) \<and>
    Fprint Write w3 '','' = (w4, n4, e4) \<and>
    encoder_Write Write w4 (case Data d of None \<Rightarrow> [] | Some b \<Rightarrow> b) 0 = (w5, ni, err, buf) \<longrightarrow>
      snd (snd (WriteTo Write order d w)) = err \<and>
      (\<forall>e. err = Some e \<longrightarrow> (\<exists>w0 chunk. snd (snd (Write w0 chunk)) = Some e))) \<and>
   (Encoding d \<noteq> EncodingASCII \<and> Encoding d \<noteq> EncodingBase64 \<longrightarrow>
      snd (snd (WriteTo Write order d w)) =
        Some (ErrorString (''dataurl: invalid encoding '' @ Encoding d)))"
proof (intro conjI impI)
  assume "Encoding d = EncodingASCII"
  then show "snd (snd (WriteTo Write order d w)) = None"
    by (simp add: WriteTo_def EncodingASCII_def EncodingBase64_def split: prod.splits)
next
  assume a: "Encoding d = EncodingBase64 \<and>
    Fprint Write w ''data:'' = (w1, n1, e1) \<and>
    Fprint Write w1 (MediaType_String order d) = (w2, n2, e2) \<and>
    Fprint Write w2 '';base64'' = (w3, n3, e3) \<and>
    Fprint Write w3 '','' = (w4, n4, e4) \<and>
    encoder_Write Write w4 (case Data d of None \<Rightarrow> [] | Some b \<Rightarrow> b) 0 = (w5, ni, err, buf)"
  then show "snd (snd (WriteTo Write order d w)) = err"
    by (cases err) (simp_all add: WriteTo_def)
  show "\<forall>e. err = Some e \<longrightarrow> (\<exists>w0 chunk. snd (snd (Write w0 chunk)) = Some e)"
  proof (intro allI impI)
    fix e
    assume "err = Some e"
    with a have "encoder_Write Write w4 (case Data d of None \<Rightarrow> [] | Some b \<Rightarrow> b) 0 =
        (w5, ni, Some e, buf)"
      by simp
    then show "\<exists>w0 chunk. snd (snd (Write w0 chunk)) = Some e"
      by (rule encoder_Write_error)
  qed
next
  assume "Encoding d \<noteq> EncodingASCII \<and> Encoding d \<noteq> EncodingBase64"
  then show "snd (snd (WriteTo Write order d w)) =
      Some (ErrorString (''dataurl: invalid encoding '' @ Encoding d))"
    by (simp add: WriteTo_def split: prod.splits)
qed

text \<open>
  The theorem with a sink that refuses every write, on three data URLs with the payload
  \<^verbatim>\<open>heya\<close>: with the encoding \<^verbatim>\<open>ascii\<close> no error is returned; with
  \<^verbatim>\<open>base64\<close> the error of the sink is returned; with \<^verbatim>\<open>hex\<close> the error names
  the encoding.
\<close>

theorem WriteTo_reports_only_payload_errors_witness:
  "snd (snd (WriteTo (\<lambda>w p. (w, 0, Some (ErrorString ''closed''))) []
       \<lparr>Type = ''text'', Subtype = ''plain'', Params = Map.empty,
        Encoding = EncodingASCII, Data = Some ''heya''\<rparr> ())) = None \<and>
   snd (snd (WriteTo (\<lambda>w p. (w, 0, Some (ErrorString ''closed''))) []
       \<lparr>Type = ''text'', Subtype = ''plain'', Params = Map.empty,
        Encoding = EncodingBase64, Data = Some ''heya''\<rparr> ())) = Some (ErrorString ''closed'') \<and>
   snd (snd (WriteTo (\<lambda>w p. (w, 0, Some (ErrorString ''closed''))) []
       \<lparr>Type = ''text'', Subtype = ''plain'', Params = Map.empty,
        Encoding = ''hex'', Data = Some ''heya''\<rparr> ())) =
     Some (ErrorString ''dataurl: invalid encoding hex'')"
proof -
  let ?W = "\<lambda>(w :: unit) (p :: string). (w, 0 :: int, Some (ErrorString ''closed''))"
  let ?d = "\<lambda>enc. \<lparr>Type = ''text'', Subtype = ''plain'', Params = Map.empty,
        Encoding = enc, Data = Some ''heya''\<rparr>"
  have enc: "encoder_Write ?W () ''heya'' 0 = ((), 0, Some (ErrorString ''closed''), [])"
    by simp
  have 1: "snd (snd (WriteTo ?W [] (?d EncodingASCII) ())) = None"
    using WriteTo_reports_only_payload_errors [where d = "?d EncodingASCII" and Write = ?W]
    by simp
  have 2: "snd (snd (WriteTo ?W [] (?d EncodingBase64) ())) = Some (ErrorString ''closed'')"
    using WriteTo_reports_only_payload_errors
      [where d = "?d EncodingBase64" and Write = ?W and w = "()" and order = "[]"
         and ?w1.0 = "()" and ?w2.0 = "()" and ?w3.0 = "()" and ?w4.0 = "()" and ?w5.0 = "()"
         and ?n1.0 = 0 and ?n2.0 = 0 and ?n3.0 = 0 and ?n4.0 = 0 and ni = 0
         and ?e1.0 = "Some (ErrorString ''closed'')" and ?e2.0 = "Some (ErrorString ''closed'')"
         and ?e3.0 = "Some (ErrorString ''closed'')" and ?e4.0 = "Some (ErrorString ''closed'')"
         and err = "Some (ErrorString ''closed'')" and buf = "[]"] enc
    by (simp add: Fprint_def)
  have 3: "snd (snd (WriteTo ?W [] (?d ''hex'') ())) =
      Some (ErrorString ''dataurl: invalid encoding hex'')"
    using WriteTo_reports_only_payload_errors [where d = "?d ''hex''" and Write = ?W]
    by (simp add: EncodingASCII_def EncodingBase64_def)
  from 1 2 3 show ?thesis by simp
qed

section \<open>Base64: what is encoded decodes to itself\<close>















section \<open>What the serializer writes\<close>






section \<open>Parsing, serializing and parsing again\<close>










end
